theory Spec2Isabelle
  imports Complex_Main
begin

section \<open>Data model\<close>

text \<open>
  A table cell as pandas holds it after \<^verbatim>\<open>read_csv\<close> or after the sample generator:
  an integer, a float (an exact rational here: rounding of binary floating point is
  outside this model), the missing value NaN, a string, a timestamp or the missing
  timestamp NaT. A timestamp is its calendar date, counted in days since 1970-01-01.
\<close>

datatype cell = CInt int | CFloat rat | CNaN | CStr string | CTimestamp int | CNaT

text \<open>
  A DataFrame is its columns in order, each a label with the values of its rows. Labels
  may repeat, as pandas allows.
\<close>

type_synonym series = "cell list"
type_synonym dataframe = "(string \<times> series) list"

text \<open>
  The exceptions the code can raise. A ValueError carries what its message says: the
  message of a missing-columns failure prints a Python set, whose order of elements is
  not fixed, so the set itself stands for it.
\<close>

datatype detail =
    Missing_columns "string set"
  | Invalid_date_format
  | Duplicate_keys

datatype py_error =
    ValueError detail
  | KeyError string
  | TypeError
  | ZeroDivisionError
  | AttributeError string string
  | RemoteError string
  | EmptyDataError
  | ParserError

definition columns :: "dataframe \<Rightarrow> string list" where
  "columns df = map fst df"

text \<open>\<^verbatim>\<open>df[key]\<close>: every column carrying the label (one for a Series, several for a frame).\<close>

definition getitem :: "dataframe \<Rightarrow> string \<Rightarrow> series list" where
  "getitem df key = map snd (filter (\<lambda>c. fst c = key) df)"

section \<open>Validation (\<^verbatim>\<open>validate_data\<close>, lines 77 to 90)\<close>

text \<open>
  Python's \<^verbatim>\<open>str.strip\<close>, \<^verbatim>\<open>str.lower\<close> and \<^verbatim>\<open>str.replace(' ', '_')\<close> on ASCII text
  (a character is a byte here; letters and white space beyond ASCII are outside this
  model).
\<close>

definition is_space :: "char \<Rightarrow> bool" where
  "is_space c = (let n = (of_char c :: nat) in (9 \<le> n \<and> n \<le> 13) \<or> (28 \<le> n \<and> n \<le> 32))"

definition strip :: "string \<Rightarrow> string" where
  "strip s = rev (dropWhile is_space (rev (dropWhile is_space s)))"

definition lower_char :: "char \<Rightarrow> char" where
  "lower_char c =
     (let n = (of_char c :: nat) in if 65 \<le> n \<and> n \<le> 90 then char_of (n + 32) else c)"

definition lower :: "string \<Rightarrow> string" where
  "lower s = map lower_char s"

definition replace_space :: "string \<Rightarrow> string" where
  "replace_space s = map (\<lambda>c. if c = CHR '' '' then CHR ''_'' else c) s"

text \<open>Line 79, one label: \<^verbatim>\<open>col.strip().lower().replace(' ', '_')\<close>\<close>

definition normalize_col :: "string \<Rightarrow> string" where
  "normalize_col col = replace_space (lower (strip col))"

text \<open>
  \<^verbatim>\<open>df.columns = names\<close> relabels the columns in place. The assigned list is computed
  from \<^verbatim>\<open>df.columns\<close> itself, so it always has as many labels as the table has columns.
\<close>

definition set_columns :: "string list \<Rightarrow> dataframe \<Rightarrow> dataframe" where
  "set_columns names df = zip names (map snd df)"

definition required :: "string set" where
  "required = {''date'', ''platform'', ''hours'', ''earnings''}"

text \<open>
  \<^verbatim>\<open>pd.to_datetime(df['date'], errors='coerce')\<close>. What pandas accepts as a date is not
  code of this repository: \<open>parse col c\<close> is the date pandas reads from the cell \<open>c\<close> of
  the column \<open>col\<close> (the format may be guessed from the column as a whole), \<open>None\<close> where
  it reads none, which \<^verbatim>\<open>errors='coerce'\<close> turns into NaT. When two columns carry the
  label, \<^verbatim>\<open>df['date']\<close> is a frame, and pandas refuses to assemble dates from a frame with
  repeated labels by a ValueError.
\<close>

type_synonym date_parser = "series \<Rightarrow> cell \<Rightarrow> int option"

definition coerce :: "date_parser \<Rightarrow> series \<Rightarrow> series" where
  "coerce parse s = map (\<lambda>c. case parse s c of None \<Rightarrow> CNaT | Some d \<Rightarrow> CTimestamp d) s"

definition to_datetime :: "date_parser \<Rightarrow> series list \<Rightarrow> py_error + series" where
  "to_datetime parse arg =
     (case arg of
        [] \<Rightarrow> Inl (KeyError ''date'')
      | [s] \<Rightarrow> Inr (coerce parse s)
      | _ \<Rightarrow> Inl (ValueError Duplicate_keys))"

text \<open>\<^verbatim>\<open>df[key] = values\<close> replaces the column in place, or appends a new one.\<close>

definition setitem :: "dataframe \<Rightarrow> string \<Rightarrow> series \<Rightarrow> dataframe" where
  "setitem df key s =
     (if key \<in> set (columns df) then map (\<lambda>c. if fst c = key then (key, s) else c) df
      else df @ [(key, s)])"

fun isnull :: "cell \<Rightarrow> bool" where
  "isnull CNaN = True"
| "isnull CNaT = True"
| "isnull _ = False"

text \<open>
  The body of the \<^verbatim>\<open>try\<close>. The table is the caller's object and both assignments
  change it in place, so the body yields the table as it leaves it next to its outcome:
  \<open>Inl\<close> the exception raised, \<open>Inr\<close> for reaching \<^verbatim>\<open>return df\<close>.
\<close>

definition validate_try :: "date_parser \<Rightarrow> dataframe \<Rightarrow> dataframe \<times> (py_error + unit)" where
  "validate_try parse df =
     (let df1 = set_columns (map normalize_col (columns df)) df;
          missing = required - set (columns df1)
      in if missing \<noteq> {} then (df1, Inl (ValueError (Missing_columns missing)))
         else
           (case to_datetime parse (getitem df1 ''date'') of
              Inl e \<Rightarrow> (df1, Inl e)
            | Inr dates \<Rightarrow>
                (let df2 = setitem df1 ''date'' dates
                 in if list_ex (list_ex isnull) (getitem df2 ''date'')
                    then (df2, Inl (ValueError Invalid_date_format))
                    else (df2, Inr ()))))"

text \<open>
  \<^verbatim>\<open>validate_data\<close>: what it returns (\<open>None\<close> is Python's \<^verbatim>\<open>None\<close>; on success the
  returned table is the caller's object itself), the caller's table afterwards, and the
  messages it has shown through \<^verbatim>\<open>st.error\<close>.
\<close>

datatype ui_message = Data_validation_error py_error

record outcome =
  returned :: "dataframe option"
  argument_after :: dataframe
  st_error :: "ui_message list"

definition validate_data :: "date_parser \<Rightarrow> dataframe \<Rightarrow> outcome" where
  "validate_data parse df =
     (case validate_try parse df of
        (df', Inr _) \<Rightarrow> \<lparr>returned = Some df', argument_after = df', st_error = []\<rparr>
      | (df', Inl e) \<Rightarrow>
          \<lparr>returned = None, argument_after = df', st_error = [Data_validation_error e]\<rparr>)"

text \<open>
  What the validator is compared with: the table with every label normalised and nothing
  else changed, the same with the cells of the \<^verbatim>\<open>date\<close> column coerced, and the columns
  found under the label \<^verbatim>\<open>date\<close> once the labels are normalised.
\<close>

definition relabelled :: "dataframe \<Rightarrow> dataframe" where
  "relabelled df = map (\<lambda>c. (normalize_col (fst c), snd c)) df"

definition date_coerced :: "date_parser \<Rightarrow> dataframe \<Rightarrow> dataframe" where
  "date_coerced parse df =
     map (\<lambda>c. (fst c, if fst c = ''date'' then coerce parse (snd c) else snd c)) df"

definition date_columns :: "dataframe \<Rightarrow> series list" where
  "date_columns df = getitem (relabelled df) ''date''"

section \<open>Calendar dates\<close>

text \<open>
  A timestamp counts days since 1970-01-01 in the proleptic Gregorian calendar, as
  pandas does. The two conversions between a day count and a civil date (year, month,
  day) count days in eras of 400 years from the first of March.
\<close>

definition days_from_civil :: "int \<Rightarrow> int \<Rightarrow> int \<Rightarrow> int" where
  "days_from_civil y m d =
     (let y1 = (if m \<le> 2 then y - 1 else y);
          era = y1 div 400;
          yoe = y1 - era * 400;
          doy = (153 * (if m > 2 then m - 3 else m + 9) + 2) div 5 + d - 1;
          doe = yoe * 365 + yoe div 4 - yoe div 100 + doy
      in era * 146097 + doe - 719468)"

definition civil_from_days :: "int \<Rightarrow> int \<times> int \<times> int" where
  "civil_from_days z =
     (let z1 = z + 719468;
          era = z1 div 146097;
          doe = z1 - era * 146097;
          yoe = (doe - doe div 1460 + doe div 36524 - doe div 146096) div 365;
          doy = doe - (365 * yoe + yoe div 4 - yoe div 100);
          mp = (5 * doy + 2) div 153;
          d = doy - (153 * mp + 2) div 5 + 1;
          m = (if mp < 10 then mp + 3 else mp - 9)
      in (yoe + era * 400 + (if m \<le> 2 then 1 else 0), m, d))"

section \<open>Sample data (\<^verbatim>\<open>load_sample_data\<close>, lines 66 to 75)\<close>

text \<open>
  numpy's global generator is a state that every call advances. The state is the
  sequence of raw draws still to come; a call for \<open>n\<close> values reads the next \<open>n\<close>
  draws and leaves the rest.
\<close>

type_synonym rng = "nat \<Rightarrow> nat"

definition advance :: "nat \<Rightarrow> rng \<Rightarrow> rng" where
  "advance n g = (\<lambda>i. g (i + n))"

text \<open>
  \<^verbatim>\<open>np.random.randint(low, high, size)\<close>: integers from \<open>low\<close> (inclusive) to \<open>high\<close>
  (exclusive), each of them possible. Both calls pass \<open>low < high\<close>.
\<close>

definition randint :: "int \<Rightarrow> int \<Rightarrow> nat \<Rightarrow> rng \<Rightarrow> int list \<times> rng" where
  "randint low high n g =
     (map (\<lambda>i. low + int (g i mod nat (high - low))) [0..<n], advance n g)"

text \<open>\<^verbatim>\<open>np.random.choice(a, size)\<close>: an index below \<open>len(a)\<close> for each value.\<close>

definition choice :: "'a list \<Rightarrow> nat \<Rightarrow> rng \<Rightarrow> 'a list \<times> rng" where
  "choice a n g =
     (case randint 0 (int (length a)) n g of (idx, g') \<Rightarrow> (map (\<lambda>k. a ! nat k) idx, g'))"

text \<open>
  \<^verbatim>\<open>np.random.uniform(low, high, size)\<close>: \<open>low + (high - low) * u\<close> for a sample \<open>u\<close> of
  the half-open unit interval, which numpy makes of 53 random bits.
\<close>

definition random_sample :: "nat \<Rightarrow> rat" where
  "random_sample raw = of_int (int raw mod 2 ^ 53) / 2 ^ 53"

definition uniform :: "rat \<Rightarrow> rat \<Rightarrow> nat \<Rightarrow> rng \<Rightarrow> rat list \<times> rng" where
  "uniform low high n g =
     (map (\<lambda>i. low + (high - low) * random_sample (g i)) [0..<n], advance n g)"

text \<open>\<^verbatim>\<open>.round(1)\<close>: to the nearest tenth, a tie going to the even neighbour.\<close>

definition rint :: "rat \<Rightarrow> int" where
  "rint x =
     (let f = \<lfloor>x\<rfloor>; r = x - of_int f
      in if r < 1 / 2 then f else if 1 / 2 < r then f + 1 else if even f then f else f + 1)"

definition round1 :: "rat \<Rightarrow> rat" where
  "round1 x = of_int (rint (x * 10)) / 10"

text \<open>\<^verbatim>\<open>pd.date_range(start, periods=n)\<close>: \<open>n\<close> days, one after the other, from \<open>start\<close>.\<close>

definition date_range :: "int \<Rightarrow> nat \<Rightarrow> int list" where
  "date_range start periods = map (\<lambda>i. start + int i) [0..<periods]"

text \<open>
  The generator. The values of the dictionary are evaluated in the order written, so
  the four calls read the draws in that order. It returns the table and the state of
  the generator it leaves.
\<close>

definition load_sample_data :: "rng \<Rightarrow> dataframe \<times> rng" where
  "load_sample_data g =
     (let dates = date_range (days_from_civil 2023 1 1) 90;
          (earnings, g1) = randint 50 200 90 g;
          (hours, g2) = randint 2 8 90 g1;
          (platform, g3) = choice [''Uber'', ''DoorDash'', ''Lyft''] 90 g2;
          (miles, g4) = uniform 5 50 90 g3
      in ([(''date'', map CTimestamp dates),
           (''earnings'', map CInt earnings),
           (''hours'', map CInt hours),
           (''platform'', map CStr platform),
           (''miles'', map (\<lambda>x. CFloat (round1 x)) miles)], g4))"

text \<open>\<^verbatim>\<open>df[key]\<close> as the list of its cells, for stating what a column holds.\<close>

definition column :: "dataframe \<Rightarrow> string \<Rightarrow> cell list" where
  "column df key = concat (getitem df key)"

section \<open>Aggregation (\<^verbatim>\<open>main\<close>, lines 136 to 165)\<close>

fun is_numeric :: "cell \<Rightarrow> bool" where
  "is_numeric (CInt _) = True"
| "is_numeric (CFloat _) = True"
| "is_numeric CNaN = True"
| "is_numeric _ = False"

fun num_value :: "cell \<Rightarrow> rat" where
  "num_value (CInt i) = of_int i"
| "num_value (CFloat r) = r"
| "num_value _ = 0"

text \<open>
  \<^verbatim>\<open>Series.sum()\<close> of a numeric column skips NaN. The sum of a column of strings or
  timestamps is not a number, and the arithmetic \<^verbatim>\<open>main\<close> applies to it next raises
  TypeError; the model raises at the sum.
\<close>

definition series_sum :: "series \<Rightarrow> py_error + rat" where
  "series_sum cs =
     (if list_all is_numeric cs then Inr (sum_list (map num_value cs)) else Inl TypeError)"

text \<open>\<^verbatim>\<open>data[key].sum()\<close>\<close>

definition column_sum :: "dataframe \<Rightarrow> string \<Rightarrow> py_error + rat" where
  "column_sum data key =
     (case getitem data key of
        [] \<Rightarrow> Inl (KeyError key)
      | [s] \<Rightarrow> series_sum s
      | _ \<Rightarrow> Inl TypeError)"

text \<open>Python's built-in \<^verbatim>\<open>max(a, b)\<close> keeps \<open>a\<close> unless \<open>b > a\<close>.\<close>

definition py_max :: "rat \<Rightarrow> rat \<Rightarrow> rat" where
  "py_max a b = (if b > a then b else a)"

definition truediv :: "rat \<Rightarrow> rat \<Rightarrow> py_error + rat" where
  "truediv a b = (if b = 0 then Inl ZeroDivisionError else Inr (a / b))"

text \<open>
  Line 142: \<^verbatim>\<open>hourly = data['earnings'].sum() / max(1, data['hours'].sum())\<close>,
  the operands evaluated left to right.
\<close>

definition hourly :: "dataframe \<Rightarrow> py_error + rat" where
  "hourly data =
     (case column_sum data ''earnings'' of
        Inl e \<Rightarrow> Inl e
      | Inr earned \<Rightarrow>
          (case column_sum data ''hours'' of
             Inl e \<Rightarrow> Inl e
           | Inr h \<Rightarrow> truediv earned (py_max 1 h)))"

text \<open>
  Lines 144 to 148: the fourth metric is the earnings per mile when the table has a
  \<^verbatim>\<open>miles\<close> column, the number of rows otherwise.
\<close>

datatype metric4 = Earnings_per_mile rat | Total_jobs nat

definition len_df :: "dataframe \<Rightarrow> nat" where
  "len_df data = (case data of [] \<Rightarrow> 0 | c # _ \<Rightarrow> length (snd c))"

definition mile_rate :: "dataframe \<Rightarrow> py_error + metric4" where
  "mile_rate data =
     (if ''miles'' \<in> set (columns data) then
        (case column_sum data ''earnings'' of
           Inl e \<Rightarrow> Inl e
         | Inr earned \<Rightarrow>
             (case column_sum data ''miles'' of
                Inl e \<Rightarrow> Inl e
              | Inr m \<Rightarrow>
                  (case truediv earned (py_max 1 m) of
                     Inl e \<Rightarrow> Inl e
                   | Inr r \<Rightarrow> Inr (Earnings_per_mile r))))
      else Inr (Total_jobs (len_df data)))"





fun is_timestamp :: "cell \<Rightarrow> bool" where
  "is_timestamp (CTimestamp _) = True"
| "is_timestamp _ = False"







text \<open>A pandas table is rectangular: every column has the same number of rows.\<close>

definition rectangular :: "dataframe \<Rightarrow> bool" where
  "rectangular df = list_all (\<lambda>c. length (snd c) = len_df df) df"

text \<open>
  Lines 156 to 159: \<^verbatim>\<open>data.groupby("platform").agg({"earnings": ["sum", "mean"],
  "hours": ["sum", "mean"]})\<close>. The rows are gone through in order, each added to the
  group of its label; a row whose label is missing belongs to no group. pandas lists the
  groups sorted by label; here they stay in the order of their first row, and a group is
  looked up by its label.
\<close>

fun insert_row :: "cell \<Rightarrow> 'v \<Rightarrow> (cell \<times> 'v list) list \<Rightarrow> (cell \<times> 'v list) list" where
  "insert_row k v [] = [(k, [v])]"
| "insert_row k v ((k', vs) # groups) =
     (if k = k' then (k', vs @ [v]) # groups else (k', vs) # insert_row k v groups)"

definition group_rows :: "cell list \<Rightarrow> 'v list \<Rightarrow> (cell \<times> 'v list) list" where
  "group_rows keys rows =
     fold (\<lambda>r groups. if isnull (fst r) then groups else insert_row (fst r) (snd r) groups)
       (zip keys rows) []"

text \<open>
  The sum and the mean of a group's values, NaN skipped; the mean of no value is NaN,
  here \<open>None\<close>.
\<close>

definition group_sum :: "series \<Rightarrow> rat" where
  "group_sum vs = sum_list (map num_value vs)"

definition group_mean :: "series \<Rightarrow> rat option" where
  "group_mean vs =
     (let present = filter (\<lambda>v. \<not> isnull v) vs
      in if present = [] then None
         else Some (sum_list (map num_value present) / of_nat (length present)))"

record platform_row =
  earnings_sum :: rat
  earnings_mean :: "rat option"
  hours_sum :: rat
  hours_mean :: "rat option"

definition agg :: "(cell \<times> cell) list \<Rightarrow> platform_row" where
  "agg rows =
     \<lparr>earnings_sum = group_sum (map fst rows), earnings_mean = group_mean (map fst rows),
      hours_sum = group_sum (map snd rows), hours_mean = group_mean (map snd rows)\<rparr>"

text \<open>
  A column that is absent is a KeyError; the sum and the mean of a column that is not
  numeric, or of a label carried by several columns, are refused by pandas.
\<close>

definition numeric_column :: "dataframe \<Rightarrow> string \<Rightarrow> py_error + series" where
  "numeric_column data key =
     (case getitem data key of
        [] \<Rightarrow> Inl (KeyError key)
      | [s] \<Rightarrow> (if list_all is_numeric s then Inr s else Inl TypeError)
      | _ \<Rightarrow> Inl TypeError)"

definition platform_stats :: "dataframe \<Rightarrow> py_error + (cell \<times> platform_row) list" where
  "platform_stats data =
     (case getitem data ''platform'' of
        [] \<Rightarrow> Inl (KeyError ''platform'')
      | [keys] \<Rightarrow>
          (case numeric_column data ''earnings'' of
             Inl e \<Rightarrow> Inl e
           | Inr es \<Rightarrow>
               (case numeric_column data ''hours'' of
                  Inl e \<Rightarrow> Inl e
                | Inr hs \<Rightarrow>
                    Inr (map (\<lambda>g. (fst g, agg (snd g))) (group_rows keys (zip es hs)))))
      | _ \<Rightarrow> Inl TypeError)"

text \<open>
  What the breakdown is compared with: the rows of one platform, picked out of the
  table by their label.
\<close>

definition rows_of :: "cell list \<Rightarrow> 'v list \<Rightarrow> cell \<Rightarrow> 'v list" where
  "rows_of keys rows k = map snd (filter (\<lambda>r. fst r = k) (zip keys rows))"

section \<open>The advisor (\<^verbatim>\<open>granite_helper.GigAI\<close>) and its callers in \<^verbatim>\<open>main\<close>\<close>

text \<open>
  What lies outside the repository is taken as given: the hosted model's
  \<^verbatim>\<open>generate_text\<close>, which answers with a text or raises; Python's \<^verbatim>\<open>str(e)\<close> of an
  exception; and the two prompt templates, of which the report's reads the table (and
  can raise on it) while the question's only prints its argument. Python passes any
  object to a method, so an argument is either a table or a text.
\<close>

datatype arg = Data dataframe | Question string

record env =
  generate_text :: "string \<Rightarrow> py_error + string"
  str_of :: "py_error \<Rightarrow> string"
  report_prompt :: "arg \<Rightarrow> py_error + string"
  question_prompt :: "arg \<Rightarrow> string"

text \<open>
  Lines 36 to 83: the whole body is inside \<^verbatim>\<open>try\<close>, and \<^verbatim>\<open>except Exception\<close> turns
  whatever is raised into a text.
\<close>

definition generate_judge_ready_recommendations :: "env \<Rightarrow> arg \<Rightarrow> string" where
  "generate_judge_ready_recommendations E data =
     (case report_prompt E data of
        Inl e \<Rightarrow> ''Error generating report: '' @ str_of E e
      | Inr prompt \<Rightarrow>
          (case generate_text E prompt of
             Inl e \<Rightarrow> ''Error generating report: '' @ str_of E e
           | Inr text \<Rightarrow> strip text))"

text \<open>Lines 85 to 115.\<close>

definition answer_question :: "env \<Rightarrow> arg \<Rightarrow> string" where
  "answer_question E question =
     (case generate_text E (question_prompt E question) of
        Inl e \<Rightarrow> ''Error generating response: '' @ str_of E e
      | Inr text \<Rightarrow> strip text)"

text \<open>
  Attribute lookup on a \<^verbatim>\<open>GigAI\<close> object, for a name that is then called: the class
  defines the two methods above (and \<^verbatim>\<open>__init__\<close>, which sets the fields
  \<^verbatim>\<open>credentials\<close>, \<^verbatim>\<open>project_id\<close> and \<^verbatim>\<open>model\<close>, none of them callable). Any other name
  raises AttributeError.
\<close>

definition gigai_method :: "env \<Rightarrow> string \<Rightarrow> py_error + (arg \<Rightarrow> string)" where
  "gigai_method E name =
     (if name = ''generate_judge_ready_recommendations''
        then Inr (generate_judge_ready_recommendations E)
      else if name = ''answer_question'' then Inr (answer_question E)
      else if name \<in> {''credentials'', ''project_id'', ''model''} then Inl TypeError
      else Inl (AttributeError ''GigAI'' name))"

text \<open>
  \<^verbatim>\<open>display_recommendations\<close> (lines 48 to 60): a text that starts with \<^verbatim>\<open>Error\<close> is
  shown as an error, any other as the recommendation box (its HTML is not modelled).
\<close>

datatype shown = St_error string | Recommendation_box string

definition startswith :: "string \<Rightarrow> string \<Rightarrow> bool" where
  "startswith s p = (take (length p) s = p)"

definition display_recommendations :: "string \<Rightarrow> shown" where
  "display_recommendations advice =
     (if startswith advice ''Error'' then St_error advice else Recommendation_box advice)"

text \<open>
  Lines 168 to 171, the button pressed: \<^verbatim>\<open>advice = gig_ai.predict_schedule(data)\<close>, then
  \<^verbatim>\<open>display_recommendations(advice)\<close>. Nothing here is inside a \<^verbatim>\<open>try\<close>: \<open>Inl\<close> is an
  exception leaving \<^verbatim>\<open>main\<close>.
\<close>

definition get_personalized_advice :: "env \<Rightarrow> dataframe \<Rightarrow> py_error + shown" where
  "get_personalized_advice E data =
     (case gigai_method E ''predict_schedule'' of
        Inl e \<Rightarrow> Inl e
      | Inr predict_schedule \<Rightarrow> Inr (display_recommendations (predict_schedule (Data data))))"

text \<open>
  Lines 176 to 181, a chat question submitted: the user's message is appended to the
  transcript, then \<^verbatim>\<open>response = gig_ai.ask_question(prompt)\<close> and the answer is
  appended. The transcript is session state: it is returned as the handler leaves it.
\<close>

type_synonym transcript = "(string \<times> string) list"

definition chat_input :: "env \<Rightarrow> transcript \<Rightarrow> string \<Rightarrow> transcript \<times> (py_error + unit)" where
  "chat_input E messages prompt =
     (let messages1 = messages @ [(''user'', prompt)]
      in case gigai_method E ''ask_question'' of
           Inl e \<Rightarrow> (messages1, Inl e)
         | Inr ask_question \<Rightarrow>
             (messages1 @ [(''assistant'', ask_question (Question prompt))], Inr ()))"

section \<open>The sample download and the upload (\<^verbatim>\<open>main\<close>, lines 117 to 131)\<close>

text \<open>
  \<^verbatim>\<open>sample_df.to_csv(index=False)\<close> writes the table as comma-separated text and
  \<^verbatim>\<open>pd.read_csv\<close> reads an uploaded text back. Neither is code of this repository. The
  writer and the reader's tokenizer are modelled below, for a system whose line
  separator is the line feed; where the model does not follow pandas it gives no result
  (\<open>None\<close>) instead of a guess. What type pandas makes of a column of texts is left
  open, as is what it accepts as a date.

  The model is for texts of ASCII characters other than NUL and the carriage return:
  a character here is a byte, and how the writer quotes a carriage return depends on the
  version of Python.
\<close>

definition text_char :: "char \<Rightarrow> bool" where
  "text_char c = (let n = (of_char c :: int) in 0 < n \<and> n < 128 \<and> n \<noteq> 13)"

definition digit_char :: "int \<Rightarrow> char" where
  "digit_char k = ''0123456789'' ! nat k"

function show_digits :: "int \<Rightarrow> string" where
  "show_digits n =
     (if n < 10 then [digit_char n] else show_digits (n div 10) @ [digit_char (n mod 10)])"
  by pat_completeness auto
termination
  by (relation "measure nat") auto

definition show_int :: "int \<Rightarrow> string" where
  "show_int i = (if i < 0 then CHR ''-'' # show_digits (- i) else show_digits i)"

text \<open>
  A float that is a whole number of tenths, of at most 15 digits, prints as that decimal:
  \<^verbatim>\<open>5.0\<close>, \<^verbatim>\<open>12.3\<close>, \<^verbatim>\<open>-0.5\<close>. Other floats are not modelled.
\<close>

definition show_float :: "rat \<Rightarrow> string option" where
  "show_float r =
     (let k = \<lfloor>r * 10\<rfloor>
      in if of_int k = r * 10 \<and> \<bar>k\<bar> < 10 ^ 15
         then Some ((if k < 0 then ''-'' else '''') @ show_digits (\<bar>k\<bar> div 10) @ ''.'' @
                    [digit_char (\<bar>k\<bar> mod 10)])
         else None)"

definition zero_pad :: "nat \<Rightarrow> int \<Rightarrow> string" where
  "zero_pad w v = (let s = show_digits v in replicate (w - length s) CHR ''0'' @ s)"

text \<open>
  A date prints as \<^verbatim>\<open>YYYY-MM-DD\<close>. A pandas timestamp lies between 1677-09-22 and
  2262-04-11, which is 106751 days to either side of 1970-01-01.
\<close>

definition date_text :: "int \<Rightarrow> string" where
  "date_text z =
     (case civil_from_days z of
        (y, m, d) \<Rightarrow> zero_pad 4 y @ ''-'' @ zero_pad 2 m @ ''-'' @ zero_pad 2 d)"

definition show_date :: "int \<Rightarrow> string option" where
  "show_date z = (if - 106751 \<le> z \<and> z \<le> 106751 then Some (date_text z) else None)"

text \<open>
  How \<^verbatim>\<open>to_csv\<close> prints one cell; a missing value prints as nothing. A timestamp
  prints as its date in a column of timestamps only.
\<close>

fun render :: "cell \<Rightarrow> string option" where
  "render (CInt i) = (if - (2 ^ 63) \<le> i \<and> i < 2 ^ 63 then Some (show_int i) else None)"
| "render (CFloat r) = show_float r"
| "render (CStr s) = (if list_all text_char s then Some s else None)"
| "render (CTimestamp d) = show_date d"
| "render CNaN = Some []"
| "render CNaT = Some []"

text \<open>
  Minimal quoting: a field that holds a comma, a double quote or a line feed is put in
  double quotes, its own double quotes doubled. A record of one empty field is written
  as a pair of quotes. Every record ends with a line feed.
\<close>

definition needs_quote :: "string \<Rightarrow> bool" where
  "needs_quote f = list_ex (\<lambda>c. c \<in> {CHR '','', CHR 0x22, CHR 0x0A}) f"

definition escape_quotes :: "string \<Rightarrow> string" where
  "escape_quotes f = concat (map (\<lambda>c. if c = CHR 0x22 then [CHR 0x22, CHR 0x22] else [c]) f)"

definition quote_field :: "string \<Rightarrow> string" where
  "quote_field f = (if needs_quote f then CHR 0x22 # escape_quotes f @ [CHR 0x22] else f)"

fun join_with :: "string \<Rightarrow> string list \<Rightarrow> string" where
  "join_with sep [] = []"
| "join_with sep [f] = f"
| "join_with sep (f # g # fs) = f @ sep @ join_with sep (g # fs)"

definition write_record :: "string list \<Rightarrow> string" where
  "write_record r =
     (if r = [[]] then [CHR 0x22, CHR 0x22] else join_with '','' (map quote_field r)) @ [CHR 0x0A]"

definition write_csv :: "string list list \<Rightarrow> string" where
  "write_csv records = concat (map write_record records)"

definition printable :: "series \<Rightarrow> bool" where
  "printable s =
     (list_all (\<lambda>v. render v \<noteq> None) s \<and>
      (list_ex is_timestamp s \<longrightarrow> list_all (\<lambda>v. is_timestamp v \<or> v = CNaT) s))"

text \<open>
  \<^verbatim>\<open>df.to_csv(index=False)\<close>: the header, then one record for each row. It is modelled
  for a table with at least one column, whose labels and cells the model can print.
\<close>

definition to_csv :: "dataframe \<Rightarrow> string option" where
  "to_csv df =
     (if df \<noteq> [] \<and> rectangular df \<and> list_all (list_all text_char) (columns df) \<and>
         list_all (\<lambda>c. printable (snd c)) df
      then Some (write_csv (columns df #
                   map (\<lambda>i. map (\<lambda>c. the (render (snd c ! i))) df) [0..<len_df df]))
      else None)"

text \<open>
  The tokenizer of \<^verbatim>\<open>read_csv\<close> goes through the text one character at a time, in one of
  these states, with the field and the record read so far. A line feed ends a record;
  blank lines and lines of blanks only are skipped; a double quote opens a quoted part
  at the start of a field only; inside the quotes every character but the double quote
  is taken as it is, and the text must not end there. A line that begins with blanks
  and goes on is read again as the start of a field. (pandas takes the text in pieces
  of 256 KiB, which shows only when such a line lies across two pieces.)
\<close>

datatype csv_state =
    Start_record | Start_field | In_field | In_quoted | Quote_in_quoted | Whitespace_line

fun again :: "csv_state \<Rightarrow> nat" where
  "again Whitespace_line = 1"
| "again _ = 0"

definition emit :: "string list \<Rightarrow> py_error + string list list \<Rightarrow> py_error + string list list" where
  "emit r rest = (case rest of Inl e \<Rightarrow> Inl e | Inr rs \<Rightarrow> Inr (r # rs))"

function (sequential) tokenize ::
  "csv_state \<Rightarrow> string \<Rightarrow> string list \<Rightarrow> string \<Rightarrow> py_error + string list list" where
  "tokenize Start_record field row [] = Inr []"
| "tokenize Whitespace_line field row [] = Inr []"
| "tokenize In_quoted field row [] = Inl ParserError"
| "tokenize st field row [] = Inr [row @ [field]]"
| "tokenize Start_record field row (c # cs) =
     (if c = CHR 0x0A then tokenize Start_record [] [] cs
      else if c = CHR '' '' \<or> c = CHR 0x09 then tokenize Whitespace_line [c] [] cs
      else if c = CHR 0x22 then tokenize In_quoted [] [] cs
      else if c = CHR '','' then tokenize Start_field [] [[]] cs
      else tokenize In_field [c] [] cs)"
| "tokenize Start_field field row (c # cs) =
     (if c = CHR 0x0A then emit (row @ [field]) (tokenize Start_record [] [] cs)
      else if c = CHR 0x22 then tokenize In_quoted field row cs
      else if c = CHR '','' then tokenize Start_field [] (row @ [field]) cs
      else tokenize In_field (field @ [c]) row cs)"
| "tokenize In_field field row (c # cs) =
     (if c = CHR 0x0A then emit (row @ [field]) (tokenize Start_record [] [] cs)
      else if c = CHR '','' then tokenize Start_field [] (row @ [field]) cs
      else tokenize In_field (field @ [c]) row cs)"
| "tokenize In_quoted field row (c # cs) =
     (if c = CHR 0x22 then tokenize Quote_in_quoted field row cs
      else tokenize In_quoted (field @ [c]) row cs)"
| "tokenize Quote_in_quoted field row (c # cs) =
     (if c = CHR 0x22 then tokenize In_quoted (field @ [c]) row cs
      else if c = CHR 0x0A then emit (row @ [field]) (tokenize Start_record [] [] cs)
      else if c = CHR '','' then tokenize Start_field [] (row @ [field]) cs
      else tokenize In_field (field @ [c]) row cs)"
| "tokenize Whitespace_line field row (c # cs) =
     (if c = CHR 0x0A then tokenize Start_record [] [] cs
      else if c = CHR '' '' \<or> c = CHR 0x09 then tokenize Whitespace_line (field @ [c]) row cs
      else tokenize In_field field row (c # cs))"
  by pat_completeness auto
termination
  by (relation "measures [\<lambda>(st, field, row, cs). length cs, \<lambda>(st, field, row, cs). again st]") auto

definition field_at :: "string list \<Rightarrow> nat \<Rightarrow> string" where
  "field_at r j = (if j < length r then r ! j else [])"

text \<open>
  \<^verbatim>\<open>pd.read_csv\<close>: the first record is the header, and a record shorter than the header
  is filled up with empty fields, which pandas reads as missing values like them; a
  record longer than the header is a ParserError, and a text without records an
  EmptyDataError. \<open>infer\<close> stands for the type pandas makes of a column of texts
  (integers, floats, Booleans, missing values or texts). Not modelled: a header with an
  empty or a repeated name, which pandas renames, and a first row of data longer than
  the header, whose leading fields pandas takes for the index.
\<close>

definition read_csv :: "(string list \<Rightarrow> series) \<Rightarrow> string \<Rightarrow> (py_error + dataframe) option" where
  "read_csv infer text =
     (if \<not> list_all text_char text then None
      else
        (case tokenize Start_record [] [] text of
           Inl e \<Rightarrow> Some (Inl e)
         | Inr [] \<Rightarrow> Some (Inl EmptyDataError)
         | Inr (header # rows) \<Rightarrow>
             (if \<not> distinct header \<or> [] \<in> set header then None
              else
                (case rows of
                   [] \<Rightarrow> Some (Inr (map (\<lambda>name. (name, [])) header))
                 | first # others \<Rightarrow>
                     (if length header < length first then None
                      else if list_ex (\<lambda>r. length header < length r) others
                      then Some (Inl ParserError)
                      else Some (Inr (map (\<lambda>j. (header ! j, infer (map (\<lambda>r. field_at r j) rows)))
                                       [0..<length header])))))))"

text \<open>
  The upload path of \<^verbatim>\<open>main\<close> (lines 117 to 119): \<^verbatim>\<open>df = pd.read_csv(uploaded_file)\<close>,
  then \<^verbatim>\<open>df = validate_data(df)\<close>. An exception of the reader is caught by the handler of
  line 124.
\<close>

definition load_uploaded ::
  "(string list \<Rightarrow> series) \<Rightarrow> date_parser \<Rightarrow> string \<Rightarrow> (py_error + outcome) option" where
  "load_uploaded infer parse text =
     (case read_csv infer text of
        None \<Rightarrow> None
      | Some (Inl e) \<Rightarrow> Some (Inl e)
      | Some (Inr df) \<Rightarrow> Some (Inr (validate_data parse df)))"

text \<open>The date that a text of the form \<^verbatim>\<open>YYYY-MM-DD\<close> names, when its month and day exist.\<close>

definition is_digit :: "char \<Rightarrow> bool" where
  "is_digit c = (let n = (of_char c :: int) in 48 \<le> n \<and> n \<le> 57)"

definition digits_value :: "string \<Rightarrow> int option" where
  "digits_value s =
     (if s \<noteq> [] \<and> list_all is_digit s
      then Some (fold (\<lambda>c v. 10 * v + (of_char c - 48)) s 0) else None)"

definition days_in_month :: "int \<Rightarrow> int \<Rightarrow> int" where
  "days_in_month y m =
     (if m = 2 then (if y mod 4 = 0 \<and> (y mod 100 \<noteq> 0 \<or> y mod 400 = 0) then 29 else 28)
      else if m \<in> {4, 6, 9, 11} then 30 else 31)"

definition parse_iso_date :: "string \<Rightarrow> int option" where
  "parse_iso_date s =
     (if length s = 10 \<and> s ! 4 = CHR ''-'' \<and> s ! 7 = CHR ''-'' then
        (case (digits_value (take 4 s), digits_value (take 2 (drop 5 s)), digits_value (drop 8 s)) of
           (Some y, Some m, Some d) \<Rightarrow>
             (if 1 \<le> m \<and> m \<le> 12 \<and> 1 \<le> d \<and> d \<le> days_in_month y m
              then Some (days_from_civil y m d) else None)
         | _ \<Rightarrow> None)
      else None)"

definition iso_text :: "cell \<Rightarrow> int option" where
  "iso_text c = (case c of CStr s \<Rightarrow> parse_iso_date s | _ \<Rightarrow> None)"

text \<open>
  What the round trip of the sample asks of pandas. Of its type inference: a column in
  which every text is a date of the form \<^verbatim>\<open>YYYY-MM-DD\<close> stays a column of those texts
  (it is read as dates only on request). Of \<^verbatim>\<open>pd.to_datetime\<close>: the column of the 90
  dates of the sample, written in that form, is read as those dates.
\<close>

definition keeps_date_texts :: "(string list \<Rightarrow> series) \<Rightarrow> bool" where
  "keeps_date_texts infer =
     (\<forall>texts. list_all (\<lambda>t. parse_iso_date t \<noteq> None) texts \<longrightarrow> infer texts = map CStr texts)"

definition sample_date_texts :: series where
  "sample_date_texts = map (\<lambda>d. CStr (date_text d)) (date_range (days_from_civil 2023 1 1) 90)"

definition reads_sample_dates :: "date_parser \<Rightarrow> bool" where
  "reads_sample_dates parse =
     list_all (\<lambda>c. parse sample_date_texts c = iso_text c) sample_date_texts"

text \<open>
  An inference and a date parser that meet this: the inference that leaves every text
  as it is, and the parser that reads the form \<^verbatim>\<open>YYYY-MM-DD\<close>, within the range of pandas
  timestamps, and nothing else.
\<close>

definition texts_only :: "string list \<Rightarrow> series" where
  "texts_only texts = map CStr texts"

definition iso_within_bounds :: date_parser where
  "iso_within_bounds col c =
     (case iso_text c of
        None \<Rightarrow> None
      | Some d \<Rightarrow> (if - 106751 \<le> d \<and> d \<le> 106751 then Some d else None))"

text \<open>
  A character that is plain to the writer and to the tokenizer alike, and what is asked
  of the text of one date: it is plain, and it names that date.
\<close>

definition plain_char :: "char \<Rightarrow> bool" where
  "plain_char c = (text_char c \<and> c \<notin> {CHR '','', CHR 0x22, CHR 0x0A, CHR '' '', CHR 0x09})"

definition plain_field :: "string \<Rightarrow> bool" where
  "plain_field f = (f \<noteq> [] \<and> list_all plain_char f)"

definition reads_back :: "int \<Rightarrow> bool" where
  "reads_back d = (plain_field (date_text d) \<and> parse_iso_date (date_text d) = Some d)"

definition plain_cell :: "cell \<Rightarrow> bool" where
  "plain_cell v = (case render v of None \<Rightarrow> False | Some f \<Rightarrow> plain_field f)"

section \<open>Properties of the validator\<close>

lemma set_columns_relabel: "set_columns (map normalize_col (columns df)) df = relabelled df"
  by (induction df) (simp_all add: set_columns_def columns_def relabelled_def)

lemma columns_relabelled: "columns (relabelled df) = map normalize_col (columns df)"
  by (simp add: relabelled_def columns_def comp_def)

lemma getitem_nonempty: "getitem df key \<noteq> [] \<longleftrightarrow> key \<in> set (columns df)"
  by (auto simp: getitem_def columns_def filter_empty_conv)

lemma getitem_replaced:
  "getitem (map (\<lambda>c. if fst c = key then (key, t) else c) df) key = map (\<lambda>_. t) (getitem df key)"
  by (induction df) (simp_all add: getitem_def)

lemma setitem_single:
  assumes "getitem df key = [s]"
  shows "setitem df key (f s) =
         map (\<lambda>c. (fst c, if fst c = key then f (snd c) else snd c)) df"
proof -
  have same: "snd c = s" if "c \<in> set df" "fst c = key" for c
  proof -
    from that have "snd c \<in> set (getitem df key)" by (auto simp: getitem_def)
    with assms show ?thesis by simp
  qed
  have "key \<in> set (columns df)"
    using assms getitem_nonempty [of df key] by simp
  then show ?thesis
    using same by (auto simp: setitem_def)
qed

lemma getitem_setitem:
  assumes "getitem df key = [s]"
  shows "getitem (setitem df key t) key = [t]"
proof -
  have "key \<in> set (columns df)"
    using assms getitem_nonempty [of df key] by simp
  then show ?thesis
    using assms by (simp add: setitem_def getitem_replaced)
qed

text \<open>The three ways the body of the try can end, by the labels of the table.\<close>

lemma validate_try_missing:
  assumes "required - set (map normalize_col (columns df)) \<noteq> {}"
  shows "validate_try parse df =
         (relabelled df,
          Inl (ValueError (Missing_columns (required - set (map normalize_col (columns df))))))"
  using assms
  by (simp add: validate_try_def Let_def set_columns_relabel columns_relabelled)

lemma validate_try_duplicate:
  assumes "required - set (map normalize_col (columns df)) = {}"
    and "length (getitem (relabelled df) ''date'') \<noteq> 1"
  shows "validate_try parse df = (relabelled df, Inl (ValueError Duplicate_keys))"
proof -
  have "''date'' \<in> set (columns (relabelled df))"
    using assms(1) by (auto simp: required_def columns_relabelled)
  then have "getitem (relabelled df) ''date'' \<noteq> []"
    by (simp add: getitem_nonempty)
  with assms(2) obtain a b r where "getitem (relabelled df) ''date'' = a # b # r"
    by (cases "getitem (relabelled df) ''date''"; cases "tl (getitem (relabelled df) ''date'')") auto
  then show ?thesis
    using assms(1)
    by (simp add: validate_try_def Let_def set_columns_relabel columns_relabelled to_datetime_def)
qed

lemma validate_try_dates:
  assumes "required - set (map normalize_col (columns df)) = {}"
    and "getitem (relabelled df) ''date'' = [s]"
  shows "validate_try parse df =
         (date_coerced parse (relabelled df),
          if list_ex (\<lambda>c. parse s c = None) s then Inl (ValueError Invalid_date_format)
          else Inr ())"
proof -
  have "isnull (case parse s c of None \<Rightarrow> CNaT | Some d \<Rightarrow> CTimestamp d) = (parse s c = None)"
    for c
    by (cases "parse s c") simp_all
  then have null: "list_ex isnull (coerce parse s) = list_ex (\<lambda>c. parse s c = None) s"
    by (simp add: coerce_def list_ex_iff)
  have "setitem (relabelled df) ''date'' (coerce parse s) = date_coerced parse (relabelled df)"
    using setitem_single [OF assms(2), of "coerce parse"] by (simp add: date_coerced_def)
  moreover have "getitem (setitem (relabelled df) ''date'' (coerce parse s)) ''date''
                 = [coerce parse s]"
    using getitem_setitem [OF assms(2)] by simp
  ultimately show ?thesis
    using assms null
    by (simp add: validate_try_def Let_def set_columns_relabel columns_relabelled to_datetime_def)
qed


lemma validate_data_missing:
  assumes "required - set (map normalize_col (columns df)) \<noteq> {}"
  shows "validate_data parse df =
         \<lparr>returned = None, argument_after = relabelled df,
          st_error = [Data_validation_error
            (ValueError (Missing_columns (required - set (map normalize_col (columns df)))))]\<rparr>"
  by (simp add: validate_data_def validate_try_missing [OF assms])

lemma validate_data_duplicate:
  assumes "required - set (map normalize_col (columns df)) = {}"
    and "length (getitem (relabelled df) ''date'') \<noteq> 1"
  shows "validate_data parse df =
         \<lparr>returned = None, argument_after = relabelled df,
          st_error = [Data_validation_error (ValueError Duplicate_keys)]\<rparr>"
  by (simp add: validate_data_def validate_try_duplicate [OF assms])

lemma validate_data_dates:
  assumes "required - set (map normalize_col (columns df)) = {}"
    and "getitem (relabelled df) ''date'' = [s]"
  shows "validate_data parse df =
         (if list_ex (\<lambda>c. parse s c = None) s
          then \<lparr>returned = None, argument_after = date_coerced parse (relabelled df),
                st_error = [Data_validation_error (ValueError Invalid_date_format)]\<rparr>
          else \<lparr>returned = Some (date_coerced parse (relabelled df)),
                argument_after = date_coerced parse (relabelled df), st_error = []\<rparr>)"
  by (simp add: validate_data_def validate_try_dates [OF assms])

lemma single_column: "length xs = 1 \<Longrightarrow> \<exists>s. xs = [s]"
  by (cases xs) auto

text \<open>
  C4: when the normalised labels omit required fields, validation fails, no Record Set
  is returned and the message names exactly the set of missing fields (the required set
  minus the labels present); when nothing is missing, no missing-columns failure occurs.
\<close>

theorem missing_columns_rejected:
  "(required - set (map normalize_col (columns df)) \<noteq> {} \<longrightarrow>
      returned (validate_data parse df) = None \<and>
      st_error (validate_data parse df) =
        [Data_validation_error
          (ValueError (Missing_columns (required - set (map normalize_col (columns df)))))]) \<and>
   (required - set (map normalize_col (columns df)) = {} \<longrightarrow>
      (\<forall>m. Data_validation_error (ValueError (Missing_columns m))
             \<notin> set (st_error (validate_data parse df))))"
proof (cases "required - set (map normalize_col (columns df)) = {}")
  case False
  then show ?thesis by (simp add: validate_data_missing)
next
  case True
  show ?thesis
  proof (cases "length (getitem (relabelled df) ''date'') = 1")
    case False
    with True show ?thesis by (simp add: validate_data_duplicate)
  next
    case one: True
    then obtain s where "getitem (relabelled df) ''date'' = [s]"
      using single_column by blast
    with True show ?thesis by (simp add: validate_data_dates)
  qed
qed

text \<open>
  C5: with all required columns present, one \<^verbatim>\<open>date\<close> cell that is no date makes
  validation fail with no Record Set at all, not a partial one; when every \<^verbatim>\<open>date\<close> cell
  parses, the date check does not fail, and with a single \<^verbatim>\<open>date\<close> column the whole
  table is returned.
\<close>

theorem invalid_date_rejects_whole_set:
  assumes "required - set (map normalize_col (columns df)) = {}"
  shows "((\<exists>s\<in>set (date_columns df). \<exists>c\<in>set s. parse s c = None) \<longrightarrow>
            returned (validate_data parse df) = None \<and> st_error (validate_data parse df) \<noteq> []) \<and>
         ((\<forall>s\<in>set (date_columns df). \<forall>c\<in>set s. parse s c \<noteq> None) \<longrightarrow>
            Data_validation_error (ValueError Invalid_date_format)
              \<notin> set (st_error (validate_data parse df)) \<and>
            (length (date_columns df) = 1 \<longrightarrow>
               returned (validate_data parse df) = Some (date_coerced parse (relabelled df))))"
proof (cases "length (getitem (relabelled df) ''date'') = 1")
  case False
  with assms show ?thesis by (simp add: validate_data_duplicate date_columns_def)
next
  case True
  then obtain s where s: "getitem (relabelled df) ''date'' = [s]"
    using single_column by blast
  then have "date_columns df = [s]" by (simp add: date_columns_def)
  then show ?thesis
    using assms s by (auto simp: validate_data_dates list_ex_iff)
qed

text \<open>
  C3, as the code has it: the validator works on the caller's table in place. The table
  it leaves behind always carries the normalised labels, and the coerced \<^verbatim>\<open>date\<close> column
  once the labels are complete and \<^verbatim>\<open>date\<close> is a single column, whether validation
  succeeds or not. On success the returned Record Set is that very table and nothing is
  shown; on failure exactly one message is shown. In every case each column keeps its
  number of rows and every column other than \<^verbatim>\<open>date\<close> keeps its cells.
\<close>

theorem validate_data_effects:
  "argument_after (validate_data parse df) =
     (if required - set (map normalize_col (columns df)) = {} \<and>
         length (getitem (relabelled df) ''date'') = 1
      then date_coerced parse (relabelled df) else relabelled df) \<and>
   (\<forall>d. returned (validate_data parse df) = Some d \<longrightarrow>
      d = date_coerced parse (relabelled df) \<and> argument_after (validate_data parse df) = d \<and>
      st_error (validate_data parse df) = []) \<and>
   (returned (validate_data parse df) = None \<longrightarrow>
      (\<exists>e. st_error (validate_data parse df) = [Data_validation_error e])) \<and>
   map (\<lambda>c. length (snd c)) (argument_after (validate_data parse df)) = map (\<lambda>c. length (snd c)) df \<and>
   (\<forall>i<length df. normalize_col (fst (df ! i)) \<noteq> ''date'' \<longrightarrow>
      snd (argument_after (validate_data parse df) ! i) = snd (df ! i))"
proof -
  have lens: "map (\<lambda>c. length (snd c)) (relabelled df) = map (\<lambda>c. length (snd c)) df"
    "map (\<lambda>c. length (snd c)) (date_coerced parse (relabelled df)) = map (\<lambda>c. length (snd c)) df"
    by (simp_all add: relabelled_def date_coerced_def coerce_def comp_def)
  have others: "snd (relabelled df ! i) = snd (df ! i)"
    "normalize_col (fst (df ! i)) \<noteq> ''date'' \<Longrightarrow>
       snd (date_coerced parse (relabelled df) ! i) = snd (df ! i)" if "i < length df" for i
    using that by (simp_all add: relabelled_def date_coerced_def)
  show ?thesis
  proof (cases "required - set (map normalize_col (columns df)) = {}")
    case False
    then show ?thesis using lens others by (simp add: validate_data_missing)
  next
    case True
    show ?thesis
    proof (cases "length (getitem (relabelled df) ''date'') = 1")
      case False
      with True show ?thesis using lens others by (simp add: validate_data_duplicate)
    next
      case one: True
      then obtain s where "getitem (relabelled df) ''date'' = [s]"
        using single_column by blast
      with True show ?thesis using lens others by (simp add: validate_data_dates)
    qed
  qed
qed

text \<open>
  C3 as stated fails: a rejected table does not stay as the caller passed it. After a
  missing-columns failure its labels are the normalised ones, and after a date failure
  its \<^verbatim>\<open>date\<close> column holds the NaT written by the coercion.
\<close>

theorem validate_data_mutates_on_failure:
  "returned (validate_data (\<lambda>col c. None) [(''Date '', [CStr ''x''])]) = None \<and>
   argument_after (validate_data (\<lambda>col c. None) [(''Date '', [CStr ''x''])])
     \<noteq> [(''Date '', [CStr ''x''])] \<and>
   returned (validate_data (\<lambda>col c. None)
     [(''date'', [CStr ''x'']), (''platform'', [CStr ''Uber'']), (''hours'', [CInt 1]),
      (''earnings'', [CInt 9])]) = None \<and>
   argument_after (validate_data (\<lambda>col c. None)
     [(''date'', [CStr ''x'']), (''platform'', [CStr ''Uber'']), (''hours'', [CInt 1]),
      (''earnings'', [CInt 9])])
     = [(''date'', [CNaT]), (''platform'', [CStr ''Uber'']), (''hours'', [CInt 1]),
        (''earnings'', [CInt 9])]"
  by code_simp



theorem missing_columns_rejected_witness:
  "required - set (map normalize_col (columns [('' Date'', [CStr ''2023-01-01'']), (''Hours'', [CInt 3])]))
     = {''platform'', ''earnings''} \<and>
   {''platform'', ''earnings''} \<noteq> ({} :: string set) \<and>
   returned (validate_data (\<lambda>col c. None) [('' Date'', [CStr ''2023-01-01'']), (''Hours'', [CInt 3])]) = None \<and>
   st_error (validate_data (\<lambda>col c. None) [('' Date'', [CStr ''2023-01-01'']), (''Hours'', [CInt 3])])
     = [Data_validation_error (ValueError (Missing_columns {''platform'', ''earnings''}))] \<and>
   required - set (map normalize_col (columns
     [(''Date'', [CStr ''x'']), (''Platform'', [CStr ''Lyft'']), (''Hours'', [CInt 3]),
      (''Earnings'', [CInt 70])])) = {} \<and>
   Data_validation_error (ValueError (Missing_columns {}))
     \<notin> set (st_error (validate_data (\<lambda>col c. None)
         [(''Date'', [CStr ''x'']), (''Platform'', [CStr ''Lyft'']), (''Hours'', [CInt 3]),
          (''Earnings'', [CInt 70])]))"
proof -
  let ?a = "[('' Date'', [CStr ''2023-01-01'']), (''Hours'', [CInt 3])]"
  let ?b = "[(''Date'', [CStr ''x'']), (''Platform'', [CStr ''Lyft'']), (''Hours'', [CInt 3]),
             (''Earnings'', [CInt 70])]"
  have a: "required - set (map normalize_col (columns ?a)) = {''platform'', ''earnings''}"
    by code_simp
  have ne: "{''platform'', ''earnings''} \<noteq> ({} :: string set)"
    by (rule insert_not_empty)
  have nz: "required - set (map normalize_col (columns ?a)) \<noteq> {}"
    unfolding a by (rule ne)
  have b: "required - set (map normalize_col (columns ?b)) = {}"
    by code_simp
  note ta = missing_columns_rejected [of ?a "\<lambda>col c. None", THEN conjunct1, THEN mp, OF nz, unfolded a]
  note tb = missing_columns_rejected [of ?b "\<lambda>col c. None", THEN conjunct2, THEN mp, OF b, THEN spec, of "{}"]
  show ?thesis
    by (intro conjI a ne ta [THEN conjunct1] ta [THEN conjunct2] b tb)
qed


theorem invalid_date_rejects_whole_set_witness:
  "required - set (map normalize_col (columns
     [(''Date'', [CStr ''2023-01-01'', CStr ''soon'']), (''Platform'', [CStr ''Lyft'', CStr ''Uber'']),
      (''Hours'', [CInt 3, CInt 4]), (''Earnings'', [CInt 70, CInt 80])])) = {} \<and>
   date_columns
     [(''Date'', [CStr ''2023-01-01'', CStr ''soon'']), (''Platform'', [CStr ''Lyft'', CStr ''Uber'']),
      (''Hours'', [CInt 3, CInt 4]), (''Earnings'', [CInt 70, CInt 80])]
     = [[CStr ''2023-01-01'', CStr ''soon'']] \<and>
   (if CStr ''soon'' = CStr ''2023-01-01'' then Some 19358 else None) = (None :: int option) \<and>
   returned (validate_data (\<lambda>col c. if c = CStr ''2023-01-01'' then Some 19358 else None)
     [(''Date'', [CStr ''2023-01-01'', CStr ''soon'']), (''Platform'', [CStr ''Lyft'', CStr ''Uber'']),
      (''Hours'', [CInt 3, CInt 4]), (''Earnings'', [CInt 70, CInt 80])]) = None \<and>
   required - set (map normalize_col (columns
     [(''Date'', [CStr ''2023-01-01'']), (''Platform'', [CStr ''Lyft'']),
      (''Hours'', [CInt 3]), (''Earnings'', [CInt 70])])) = {} \<and>
   date_columns
     [(''Date'', [CStr ''2023-01-01'']), (''Platform'', [CStr ''Lyft'']),
      (''Hours'', [CInt 3]), (''Earnings'', [CInt 70])] = [[CStr ''2023-01-01'']] \<and>
   returned (validate_data (\<lambda>col c. if c = CStr ''2023-01-01'' then Some 19358 else None)
     [(''Date'', [CStr ''2023-01-01'']), (''Platform'', [CStr ''Lyft'']),
      (''Hours'', [CInt 3]), (''Earnings'', [CInt 70])])
   = Some [(''date'', [CTimestamp 19358]), (''platform'', [CStr ''Lyft'']),
      (''hours'', [CInt 3]), (''earnings'', [CInt 70])]"
proof -
  let ?p = "\<lambda>(col :: series) c. if c = CStr ''2023-01-01'' then Some (19358 :: int) else None"
  let ?a = "[(''Date'', [CStr ''2023-01-01'', CStr ''soon'']), (''Platform'', [CStr ''Lyft'', CStr ''Uber'']),
      (''Hours'', [CInt 3, CInt 4]), (''Earnings'', [CInt 70, CInt 80])]"
  let ?b = "[(''Date'', [CStr ''2023-01-01'']), (''Platform'', [CStr ''Lyft'']),
      (''Hours'', [CInt 3]), (''Earnings'', [CInt 70])]"
  have a: "required - set (map normalize_col (columns ?a)) = {}"
    by code_simp
  have ca: "date_columns ?a = [[CStr ''2023-01-01'', CStr ''soon'']]"
    by code_simp
  have soon: "(if CStr ''soon'' = CStr ''2023-01-01'' then Some 19358 else None) = (None :: int option)"
    by simp
  have bad: "\<exists>s\<in>set (date_columns ?a). \<exists>c\<in>set s. ?p s c = None"
    unfolding ca by simp
  have b: "required - set (map normalize_col (columns ?b)) = {}"
    by code_simp
  have cb: "date_columns ?b = [[CStr ''2023-01-01'']]"
    by code_simp
  have good: "\<forall>s\<in>set (date_columns ?b). \<forall>c\<in>set s. ?p s c \<noteq> None"
    unfolding cb by simp
  have one: "length (date_columns ?b) = 1"
    unfolding cb by simp
  have val: "date_coerced ?p (relabelled ?b)
     = [(''date'', [CTimestamp 19358]), (''platform'', [CStr ''Lyft'']),
        (''hours'', [CInt 3]), (''earnings'', [CInt 70])]"
    by code_simp
  note ra = invalid_date_rejects_whole_set [OF a, of ?p, THEN conjunct1, THEN mp, OF bad, THEN conjunct1]
  note rb = invalid_date_rejects_whole_set [OF b, of ?p, THEN conjunct2, THEN mp, OF good,
      THEN conjunct2, THEN mp, OF one, unfolded val]
  show ?thesis
    by (intro conjI a ca soon ra b cb rb)
qed

theorem validate_data_effects_witness:
  "returned (validate_data (\<lambda>col c. if c = CStr ''2023-01-01'' then Some 19358 else None)
     [(''Date'', [CStr ''2023-01-01'']), (''Platform'', [CStr ''Lyft'']),
      (''Hours'', [CInt 3]), (''Earnings'', [CInt 70])])
   = Some [(''date'', [CTimestamp 19358]), (''platform'', [CStr ''Lyft'']),
      (''hours'', [CInt 3]), (''earnings'', [CInt 70])] \<and>
   argument_after (validate_data (\<lambda>col c. if c = CStr ''2023-01-01'' then Some 19358 else None)
     [(''Date'', [CStr ''2023-01-01'']), (''Platform'', [CStr ''Lyft'']),
      (''Hours'', [CInt 3]), (''Earnings'', [CInt 70])])
   = [(''date'', [CTimestamp 19358]), (''platform'', [CStr ''Lyft'']),
      (''hours'', [CInt 3]), (''earnings'', [CInt 70])] \<and>
   st_error (validate_data (\<lambda>col c. if c = CStr ''2023-01-01'' then Some 19358 else None)
     [(''Date'', [CStr ''2023-01-01'']), (''Platform'', [CStr ''Lyft'']),
      (''Hours'', [CInt 3]), (''Earnings'', [CInt 70])]) = [] \<and>
   returned (validate_data (\<lambda>col c. None) [(''Date'', [CStr ''soon'']), (''Tips'', [CInt 3])]) = None \<and>
   (\<exists>e. st_error (validate_data (\<lambda>col c. None) [(''Date'', [CStr ''soon'']), (''Tips'', [CInt 3])])
     = [Data_validation_error e])"
proof -
  let ?p = "\<lambda>(col :: series) c. if c = CStr ''2023-01-01'' then Some (19358 :: int) else None"
  let ?n = "\<lambda>(col :: series) (c :: cell). None :: int option"
  let ?b = "[(''Date'', [CStr ''2023-01-01'']), (''Platform'', [CStr ''Lyft'']),
      (''Hours'', [CInt 3]), (''Earnings'', [CInt 70])]"
  let ?a = "[(''Date'', [CStr ''soon'']), (''Tips'', [CInt 3])]"
  let ?v = "[(''date'', [CTimestamp 19358]), (''platform'', [CStr ''Lyft'']),
      (''hours'', [CInt 3]), (''earnings'', [CInt 70])]"
  have rb: "returned (validate_data ?p ?b) = Some ?v"
    by code_simp
  note eb = validate_data_effects [of ?p ?b, THEN conjunct2, THEN conjunct1, THEN spec, of ?v,
      THEN mp, OF rb, THEN conjunct2]
  have ra: "returned (validate_data ?n ?a) = None"
    by code_simp
  note ea = validate_data_effects [of ?n ?a, THEN conjunct2, THEN conjunct2, THEN conjunct1,
      THEN mp, OF ra]
  show ?thesis
    by (intro conjI rb eb [THEN conjunct1] eb [THEN conjunct2] ra ea)
qed

section \<open>Properties of the sample data\<close>

lemma epoch_day: "days_from_civil 2023 1 1 = 19358"
  by (simp add: days_from_civil_def)

lemma load_sample_data_table:
  "fst (load_sample_data g) =
     [(''date'', map (\<lambda>i. CTimestamp (days_from_civil 2023 1 1 + int i)) [0..<90]),
      (''earnings'', map (\<lambda>i. CInt (50 + int (g i mod 150))) [0..<90]),
      (''hours'', map (\<lambda>i. CInt (2 + int (g (i + 90) mod 6))) [0..<90]),
      (''platform'', map (\<lambda>i. CStr ([''Uber'', ''DoorDash'', ''Lyft''] ! (g (i + 180) mod 3))) [0..<90]),
      (''miles'', map (\<lambda>i. CFloat (round1 (5 + 45 * random_sample (g (i + 270))))) [0..<90])]"
  by (simp add: load_sample_data_def randint_def choice_def uniform_def advance_def
      date_range_def Let_def split_def comp_def add.commute del: upt_Suc)

lemma sample_columns:
  "column (fst (load_sample_data g)) ''date'' = map (\<lambda>i. CTimestamp (days_from_civil 2023 1 1 + int i)) [0..<90]"
  "column (fst (load_sample_data g)) ''earnings'' = map (\<lambda>i. CInt (50 + int (g i mod 150))) [0..<90]"
  "column (fst (load_sample_data g)) ''hours'' = map (\<lambda>i. CInt (2 + int (g (i + 90) mod 6))) [0..<90]"
  "column (fst (load_sample_data g)) ''platform'' =
     map (\<lambda>i. CStr ([''Uber'', ''DoorDash'', ''Lyft''] ! (g (i + 180) mod 3))) [0..<90]"
  "column (fst (load_sample_data g)) ''miles'' =
     map (\<lambda>i. CFloat (round1 (5 + 45 * random_sample (g (i + 270))))) [0..<90]"
  unfolding load_sample_data_table column_def getitem_def by simp_all

lemma rint_bounds:
  assumes "of_int a \<le> x" and "x \<le> of_int b"
  shows "a \<le> rint x \<and> rint x \<le> b"
proof -
  have lo: "a \<le> \<lfloor>x\<rfloor>" using assms(1) by (simp add: le_floor_iff)
  have hi: "\<lfloor>x\<rfloor> \<le> b" using assms(2) by (simp add: floor_le_iff)
  show ?thesis
  proof (cases "\<lfloor>x\<rfloor> = b")
    case True
    then have "x = of_int b" using assms(2) of_int_floor_le [of x] by simp
    then show ?thesis using lo True by (simp add: rint_def)
  next
    case False
    with hi have "\<lfloor>x\<rfloor> + 1 \<le> b" by simp
    then show ?thesis using lo by (auto simp: rint_def Let_def)
  qed
qed

lemma random_sample_unit: "0 \<le> random_sample k \<and> random_sample k < 1"
proof -
  have "0 \<le> int k mod 2 ^ 53" "int k mod 2 ^ 53 < 2 ^ 53" by simp_all
  then have "(0::rat) \<le> of_int (int k mod 2 ^ 53)" "(of_int (int k mod 2 ^ 53) :: rat) < of_int (2 ^ 53)"
    by (simp_all only: of_int_0_le_iff of_int_less_iff)
  then show ?thesis by (simp add: random_sample_def)
qed

lemma miles_tenths:
  "\<exists>k. round1 (5 + 45 * random_sample r) = of_int k / 10 \<and> 50 \<le> k \<and> k \<le> 500"
proof -
  let ?x = "(5 + 45 * random_sample r) * 10"
  from random_sample_unit [of r] have "of_int 50 \<le> ?x" "?x \<le> of_int 500" by simp_all
  from rint_bounds [OF this] show ?thesis by (auto simp: round1_def)
qed


lemma label_choice: "[''Uber'', ''DoorDash'', ''Lyft''] ! (k mod 3) \<in> {''Uber'', ''DoorDash'', ''Lyft''}"
proof -
  have "k mod 3 = 0 \<or> k mod 3 = 1 \<or> k mod 3 = 2" by presburger
  then show ?thesis by auto
qed


lemma first_in_map: "f 0 \<in> set (map f [0..<90])"
  by (simp only: set_map set_upt) (rule image_eqI [of _ _ 0], simp_all)

text \<open>
  C2, as the code has it: whatever the generator draws, the table has the columns
  \<^verbatim>\<open>date, earnings, hours, platform, miles\<close> of 90 rows each; the dates are the 90
  consecutive days from 2023-01-01; earnings are integers from 50 to 199 and hours
  integers from 2 to 7, the upper bounds of \<^verbatim>\<open>randint\<close> being exclusive; the platform is
  one of the three labels; miles is a whole number of tenths from 5.0 to 50.0. The ends
  50 and 199 of the earnings and 2 and 7 of the hours are each drawn by some generator.
\<close>

theorem sample_data_ranges:
  "columns (fst (load_sample_data g)) = [''date'', ''earnings'', ''hours'', ''platform'', ''miles''] \<and>
   column (fst (load_sample_data g)) ''date''
     = map (\<lambda>i. CTimestamp (days_from_civil 2023 1 1 + int i)) [0..<90] \<and>
   civil_from_days (days_from_civil 2023 1 1) = (2023, 1, 1) \<and>
   length (column (fst (load_sample_data g)) ''earnings'') = 90 \<and>
   (\<forall>c\<in>set (column (fst (load_sample_data g)) ''earnings''). \<exists>e. c = CInt e \<and> 50 \<le> e \<and> e \<le> 199) \<and>
   length (column (fst (load_sample_data g)) ''hours'') = 90 \<and>
   (\<forall>c\<in>set (column (fst (load_sample_data g)) ''hours''). \<exists>h. c = CInt h \<and> 2 \<le> h \<and> h \<le> 7) \<and>
   length (column (fst (load_sample_data g)) ''platform'') = 90 \<and>
   (\<forall>c\<in>set (column (fst (load_sample_data g)) ''platform'').
      c \<in> {CStr ''Uber'', CStr ''DoorDash'', CStr ''Lyft''}) \<and>
   length (column (fst (load_sample_data g)) ''miles'') = 90 \<and>
   (\<forall>c\<in>set (column (fst (load_sample_data g)) ''miles'').
      \<exists>k. c = CFloat (of_int k / 10) \<and> 50 \<le> k \<and> k \<le> 500) \<and>
   (\<exists>g. CInt 50 \<in> set (column (fst (load_sample_data g)) ''earnings'')) \<and>
   (\<exists>g. CInt 199 \<in> set (column (fst (load_sample_data g)) ''earnings'')) \<and>
   (\<exists>g. CInt 2 \<in> set (column (fst (load_sample_data g)) ''hours'')) \<and>
   (\<exists>g. CInt 7 \<in> set (column (fst (load_sample_data g)) ''hours''))"
proof -
  have cols: "columns (fst (load_sample_data g))
      = [''date'', ''earnings'', ''hours'', ''platform'', ''miles'']"
    by (simp add: load_sample_data_table columns_def)
  have epoch: "civil_from_days (days_from_civil 2023 1 1) = (2023, 1, 1)"
    by code_simp
  have earn: "\<forall>c\<in>set (column (fst (load_sample_data g)) ''earnings''). \<exists>e. c = CInt e \<and> 50 \<le> e \<and> e \<le> 199"
  proof
    fix c assume "c \<in> set (column (fst (load_sample_data g)) ''earnings'')"
    then obtain i where "c = CInt (50 + int (g i mod 150))"
      by (auto simp: sample_columns)
    moreover have "g i mod 150 < 150" by simp
    ultimately show "\<exists>e. c = CInt e \<and> 50 \<le> e \<and> e \<le> 199" by simp
  qed
  have hrs: "\<forall>c\<in>set (column (fst (load_sample_data g)) ''hours''). \<exists>h. c = CInt h \<and> 2 \<le> h \<and> h \<le> 7"
  proof
    fix c assume "c \<in> set (column (fst (load_sample_data g)) ''hours'')"
    then obtain i where "c = CInt (2 + int (g (i + 90) mod 6))"
      by (auto simp: sample_columns)
    moreover have "g (i + 90) mod 6 < 6" by simp
    ultimately show "\<exists>h. c = CInt h \<and> 2 \<le> h \<and> h \<le> 7" by simp
  qed
  have plat: "\<forall>c\<in>set (column (fst (load_sample_data g)) ''platform'').
      c \<in> {CStr ''Uber'', CStr ''DoorDash'', CStr ''Lyft''}"
  proof
    fix c assume "c \<in> set (column (fst (load_sample_data g)) ''platform'')"
    then obtain i where "c = CStr ([''Uber'', ''DoorDash'', ''Lyft''] ! (g (i + 180) mod 3))"
      by (auto simp: sample_columns)
    with label_choice [of "g (i + 180)"]
    show "c \<in> {CStr ''Uber'', CStr ''DoorDash'', CStr ''Lyft''}" by auto
  qed
  have mil: "\<forall>c\<in>set (column (fst (load_sample_data g)) ''miles'').
      \<exists>k. c = CFloat (of_int k / 10) \<and> 50 \<le> k \<and> k \<le> 500"
  proof
    fix c assume "c \<in> set (column (fst (load_sample_data g)) ''miles'')"
    then obtain i where "c = CFloat (round1 (5 + 45 * random_sample (g (i + 270))))"
      by (auto simp: sample_columns)
    with miles_tenths [of "g (i + 270)"]
    show "\<exists>k. c = CFloat (of_int k / 10) \<and> 50 \<le> k \<and> k \<le> 500" by auto
  qed
  note in0 = first_in_map
  have e50: "CInt 50 \<in> set (column (fst (load_sample_data (\<lambda>i. 0))) ''earnings'')"
    unfolding sample_columns using in0 [of "\<lambda>i. CInt (50 + int (0 mod 150))"] by simp
  have e199: "CInt 199 \<in> set (column (fst (load_sample_data (\<lambda>i. 149))) ''earnings'')"
    unfolding sample_columns using in0 [of "\<lambda>i. CInt (50 + int (149 mod 150))"] by simp
  have h2: "CInt 2 \<in> set (column (fst (load_sample_data (\<lambda>i. 0))) ''hours'')"
    unfolding sample_columns using in0 [of "\<lambda>i. CInt (2 + int (0 mod 6))"] by simp
  have h7: "CInt 7 \<in> set (column (fst (load_sample_data (\<lambda>i. 149))) ''hours'')"
    unfolding sample_columns using in0 [of "\<lambda>i. CInt (2 + int (149 mod 6))"] by simp
  have x50: "\<exists>g. CInt 50 \<in> set (column (fst (load_sample_data g)) ''earnings'')"
    using e50 by blast
  have x199: "\<exists>g. CInt 199 \<in> set (column (fst (load_sample_data g)) ''earnings'')"
    using e199 by blast
  have x2: "\<exists>g. CInt 2 \<in> set (column (fst (load_sample_data g)) ''hours'')"
    using h2 by blast
  have x7: "\<exists>g. CInt 7 \<in> set (column (fst (load_sample_data g)) ''hours'')"
    using h7 by blast
  have lens: "length (column (fst (load_sample_data g)) ''earnings'') = 90"
    "length (column (fst (load_sample_data g)) ''hours'') = 90"
    "length (column (fst (load_sample_data g)) ''platform'') = 90"
    "length (column (fst (load_sample_data g)) ''miles'') = 90"
    by (simp_all add: sample_columns)
  show ?thesis
    by (intro conjI cols sample_columns(1) epoch earn hrs plat mil x50 x199 x2 x7 lens)
qed

text \<open>
  C2 as stated fails at the upper ends: no state of the generator yields earnings of 200
  or 8 hours.
\<close>

theorem upper_endpoints_not_attained:
  "\<not> (\<exists>g. CInt 200 \<in> set (column (fst (load_sample_data g)) ''earnings'')) \<and>
   \<not> (\<exists>g. CInt 8 \<in> set (column (fst (load_sample_data g)) ''hours''))"
proof (intro conjI notI)
  assume "\<exists>g. CInt 200 \<in> set (column (fst (load_sample_data g)) ''earnings'')"
  then obtain g :: rng and i :: nat where "(200::int) = 50 + int (g i mod 150)"
    by (auto simp: sample_columns)
  moreover have "g i mod 150 < 150" by simp
  ultimately show False by linarith
next
  assume "\<exists>g. CInt 8 \<in> set (column (fst (load_sample_data g)) ''hours'')"
  then obtain g :: rng and i :: nat where "(8::int) = 2 + int (g (i + 90) mod 6)"
    by (auto simp: sample_columns)
  moreover have "g (i + 90) mod 6 < 6" by simp
  ultimately show False by linarith
qed


theorem sample_data_ranges_witness:
  "CInt 50 \<in> set (column (fst (load_sample_data (\<lambda>i. 0))) ''earnings'') \<and>
   (\<exists>e. CInt 50 = CInt e \<and> 50 \<le> e \<and> e \<le> 199) \<and>
   CInt 2 \<in> set (column (fst (load_sample_data (\<lambda>i. 0))) ''hours'') \<and>
   (\<exists>h. CInt 2 = CInt h \<and> 2 \<le> h \<and> h \<le> 7) \<and>
   CStr ''Uber'' \<in> set (column (fst (load_sample_data (\<lambda>i. 0))) ''platform'') \<and>
   CStr ''Uber'' \<in> {CStr ''Uber'', CStr ''DoorDash'', CStr ''Lyft''} \<and>
   CFloat 5 \<in> set (column (fst (load_sample_data (\<lambda>i. 0))) ''miles'') \<and>
   (\<exists>k. CFloat 5 = CFloat (of_int k / 10) \<and> 50 \<le> k \<and> k \<le> 500)"
proof -
  let ?g = "\<lambda>i :: nat. 0 :: nat"
  note t = sample_data_ranges [of ?g]
  have e: "CInt 50 \<in> set (column (fst (load_sample_data ?g)) ''earnings'')"
    unfolding sample_columns using first_in_map [of "\<lambda>i. CInt (50 + int (0 mod 150))"] by simp
  have h: "CInt 2 \<in> set (column (fst (load_sample_data ?g)) ''hours'')"
    unfolding sample_columns using first_in_map [of "\<lambda>i. CInt (2 + int (0 mod 6))"] by simp
  have p: "CStr ''Uber'' \<in> set (column (fst (load_sample_data ?g)) ''platform'')"
    unfolding sample_columns
    using first_in_map [of "\<lambda>i. CStr ([''Uber'', ''DoorDash'', ''Lyft''] ! (0 mod 3))"] by simp
  have five: "round1 (5 + 45 * random_sample 0) = 5"
    by (simp add: round1_def rint_def random_sample_def)
  have m: "CFloat 5 \<in> set (column (fst (load_sample_data ?g)) ''miles'')"
    unfolding sample_columns
    using first_in_map [of "\<lambda>i. CFloat (round1 (5 + 45 * random_sample 0))"] by (simp add: five)
  note t4 = t [THEN conjunct2, THEN conjunct2, THEN conjunct2, THEN conjunct2]
  note te = t4 [THEN conjunct1, THEN bspec, OF e]
  note t6 = t4 [THEN conjunct2, THEN conjunct2]
  note th = t6 [THEN conjunct1, THEN bspec, OF h]
  note t8 = t6 [THEN conjunct2, THEN conjunct2]
  note tp = t8 [THEN conjunct1, THEN bspec, OF p]
  note t10 = t8 [THEN conjunct2, THEN conjunct2]
  note tm = t10 [THEN conjunct1, THEN bspec, OF m]
  show ?thesis
    by (intro conjI e te h th p tp m tm)
qed

section \<open>The guard of the rate computations\<close>

lemma py_max_ge_one: "1 \<le> py_max 1 b"
  by (simp add: py_max_def)

lemma truediv_guarded: "truediv a (py_max 1 b) = Inr (a / py_max 1 b)"
  using py_max_ge_one [of b] by (simp add: truediv_def)

lemma py_max_below_one: "b < 1 \<Longrightarrow> py_max 1 b = 1"
  by (simp add: py_max_def)

text \<open>
  C8: when the \<^verbatim>\<open>hours\<close> values sum to zero, the hourly rate does not raise and equals
  the total earnings; when the table has a \<^verbatim>\<open>miles\<close> column that sums to zero, the
  earnings per mile does not raise and equals the total earnings.
\<close>

theorem zero_divisor_rate_is_total:
  assumes "column_sum data ''earnings'' = Inr earned"
  shows "(column_sum data ''hours'' = Inr 0 \<longrightarrow> hourly data = Inr earned) \<and>
         (''miles'' \<in> set (columns data) \<and> column_sum data ''miles'' = Inr 0 \<longrightarrow>
            mile_rate data = Inr (Earnings_per_mile earned))"
  using assms
  by (simp add: hourly_def mile_rate_def py_max_below_one truediv_def)

theorem zero_divisor_rate_is_total_witness:
  "column_sum [(''earnings'', [CInt 10, CInt 20]), (''hours'', [CInt 0, CInt 0]),
               (''miles'', [CFloat 0, CFloat 0])] ''earnings'' = Inr 30 \<and>
   column_sum [(''earnings'', [CInt 10, CInt 20]), (''hours'', [CInt 0, CInt 0]),
               (''miles'', [CFloat 0, CFloat 0])] ''hours'' = Inr 0 \<and>
   ''miles'' \<in> set (columns [(''earnings'', [CInt 10, CInt 20]), (''hours'', [CInt 0, CInt 0]),
               (''miles'', [CFloat 0, CFloat 0])]) \<and>
   column_sum [(''earnings'', [CInt 10, CInt 20]), (''hours'', [CInt 0, CInt 0]),
               (''miles'', [CFloat 0, CFloat 0])] ''miles'' = Inr 0 \<and>
   hourly [(''earnings'', [CInt 10, CInt 20]), (''hours'', [CInt 0, CInt 0]),
               (''miles'', [CFloat 0, CFloat 0])] = Inr 30 \<and>
   mile_rate [(''earnings'', [CInt 10, CInt 20]), (''hours'', [CInt 0, CInt 0]),
               (''miles'', [CFloat 0, CFloat 0])] = Inr (Earnings_per_mile 30)"
proof -
  let ?d = "[(''earnings'', [CInt 10, CInt 20]), (''hours'', [CInt 0, CInt 0]),
             (''miles'', [CFloat 0, CFloat 0])]"
  have e: "column_sum ?d ''earnings'' = Inr 30"
    by (simp add: column_sum_def getitem_def series_sum_def)
  have h: "column_sum ?d ''hours'' = Inr 0"
    by (simp add: column_sum_def getitem_def series_sum_def)
  have m: "column_sum ?d ''miles'' = Inr 0"
    by (simp add: column_sum_def getitem_def series_sum_def)
  have c: "''miles'' \<in> set (columns ?d)"
    by (simp add: columns_def)
  from zero_divisor_rate_is_total [OF e] h m c
  have "hourly ?d = Inr 30" and "mile_rate ?d = Inr (Earnings_per_mile 30)"
    by blast+
  with e h m c show ?thesis by blast
qed

text \<open>
  C10: the guard fires for every divisor sum below 1, not only for zero: when the
  \<^verbatim>\<open>hours\<close> (or \<^verbatim>\<open>miles\<close>) values sum to \<open>s\<close> with \<open>0 < s < 1\<close>, the rate is the total
  earnings divided by 1, which is not the total divided by \<open>s\<close> unless the total is zero.
\<close>

theorem sub_unit_divisor_treated_as_one:
  assumes "column_sum data ''earnings'' = Inr earned" and "0 < s" and "s < 1"
  shows "(column_sum data ''hours'' = Inr s \<longrightarrow>
            hourly data = Inr (earned / 1) \<and> (earned \<noteq> 0 \<longrightarrow> hourly data \<noteq> Inr (earned / s))) \<and>
         (''miles'' \<in> set (columns data) \<and> column_sum data ''miles'' = Inr s \<longrightarrow>
            mile_rate data = Inr (Earnings_per_mile (earned / 1)) \<and>
            (earned \<noteq> 0 \<longrightarrow> mile_rate data \<noteq> Inr (Earnings_per_mile (earned / s))))"
proof -
  have ne: "earned \<noteq> 0 \<Longrightarrow> earned \<noteq> earned / s"
    using assms(2,3) by (simp add: field_simps)
  show ?thesis
    using assms ne
    by (simp add: hourly_def mile_rate_def py_max_below_one truediv_def)
qed

theorem sub_unit_divisor_treated_as_one_witness:
  "column_sum [(''earnings'', [CInt 10]), (''hours'', [CFloat (1 / 2)]),
               (''miles'', [CFloat (1 / 2)])] ''earnings'' = Inr 10 \<and>
   column_sum [(''earnings'', [CInt 10]), (''hours'', [CFloat (1 / 2)]),
               (''miles'', [CFloat (1 / 2)])] ''hours'' = Inr (1 / 2) \<and>
   column_sum [(''earnings'', [CInt 10]), (''hours'', [CFloat (1 / 2)]),
               (''miles'', [CFloat (1 / 2)])] ''miles'' = Inr (1 / 2) \<and>
   hourly [(''earnings'', [CInt 10]), (''hours'', [CFloat (1 / 2)]),
               (''miles'', [CFloat (1 / 2)])] = Inr 10 \<and>
   hourly [(''earnings'', [CInt 10]), (''hours'', [CFloat (1 / 2)]),
               (''miles'', [CFloat (1 / 2)])] \<noteq> Inr 20 \<and>
   mile_rate [(''earnings'', [CInt 10]), (''hours'', [CFloat (1 / 2)]),
               (''miles'', [CFloat (1 / 2)])] = Inr (Earnings_per_mile 10) \<and>
   mile_rate [(''earnings'', [CInt 10]), (''hours'', [CFloat (1 / 2)]),
               (''miles'', [CFloat (1 / 2)])] \<noteq> Inr (Earnings_per_mile 20)"
proof -
  let ?d = "[(''earnings'', [CInt 10]), (''hours'', [CFloat (1 / 2)]),
             (''miles'', [CFloat (1 / 2)])]"
  have e: "column_sum ?d ''earnings'' = Inr 10"
    by (simp add: column_sum_def getitem_def series_sum_def)
  have h: "column_sum ?d ''hours'' = Inr (1 / 2)"
    by (simp add: column_sum_def getitem_def series_sum_def)
  have m: "column_sum ?d ''miles'' = Inr (1 / 2)"
    by (simp add: column_sum_def getitem_def series_sum_def)
  have c: "''miles'' \<in> set (columns ?d)"
    by (simp add: columns_def)
  have s: "(0::rat) < 1 / 2" "(1::rat) / 2 < 1" by simp_all
  from sub_unit_divisor_treated_as_one [OF e s] h m c
  have "hourly ?d = Inr (10 / 1)" "hourly ?d \<noteq> Inr (10 / (1 / 2))"
    "mile_rate ?d = Inr (Earnings_per_mile (10 / 1))"
    "mile_rate ?d \<noteq> Inr (Earnings_per_mile (10 / (1 / 2)))"
    by simp_all
  with e h m show ?thesis by simp
qed

section \<open>The weekly resample\<close>









lemma column_sum_InrD:
  assumes "column_sum data key = Inr t"
  shows "\<exists>vs. getitem data key = [vs] \<and> list_all is_numeric vs \<and> t = sum_list (map num_value vs)"
proof (cases "getitem data key")
  case Nil
  with assms show ?thesis by (simp add: column_sum_def)
next
  case (Cons vs rest)
  with assms have "rest = []"
    by (cases rest) (simp_all add: column_sum_def)
  with Cons assms show ?thesis
    by (auto simp: column_sum_def series_sum_def split: if_splits)
qed

lemma getitem_in_table: "getitem df key = [vs] \<Longrightarrow> (key, vs) \<in> set df"
proof -
  assume "getitem df key = [vs]"
  then have "vs \<in> snd ` set (filter (\<lambda>c. fst c = key) df)"
    unfolding getitem_def by (metis list.set_intros(1) set_map)
  then show ?thesis by auto
qed

lemma rectangular_length:
  assumes "rectangular df" and "getitem df a = [xs]" and "getitem df b = [ys]"
  shows "length xs = length ys"
proof -
  from assms(2,3) have "(a, xs) \<in> set df" "(b, ys) \<in> set df"
    by (simp_all add: getitem_in_table)
  with assms(1) have "length (snd (a, xs)) = len_df df" "length (snd (b, ys)) = len_df df"
    unfolding rectangular_def list_all_iff by blast+
  then show ?thesis by simp
qed







lemma getitem_date_coerced:
  "getitem (date_coerced parse df) ''date'' = map (coerce parse) (getitem df ''date'')"
  by (induction df) (simp_all add: getitem_def date_coerced_def)

lemma coerced_timestamps:
  "\<not> list_ex (\<lambda>c. parse s c = None) s \<Longrightarrow> list_all is_timestamp (coerce parse s)"
  by (auto simp: coerce_def list_ex_iff list_all_iff split: option.splits)

text \<open>A table that validation returns has a single date column, of timestamps only.\<close>

lemma validated_date_column:
  assumes "returned (validate_data parse df) = Some data"
  shows "\<exists>s. getitem data ''date'' = [s] \<and> list_all is_timestamp s"
proof (cases "required - set (map normalize_col (columns df)) = {}")
  case False
  with assms show ?thesis by (simp add: validate_data_missing)
next
  case True
  show ?thesis
  proof (cases "length (getitem (relabelled df) ''date'') = 1")
    case False
    with True assms show ?thesis by (simp add: validate_data_duplicate)
  next
    case one: True
    then obtain s where s: "getitem (relabelled df) ''date'' = [s]"
      using single_column by blast
    from assms have ok: "\<not> list_ex (\<lambda>c. parse s c = None) s"
      and data: "data = date_coerced parse (relabelled df)"
      by (auto simp: validate_data_dates [OF True s] split: if_splits)
    have "getitem data ''date'' = [coerce parse s]"
      by (simp add: data getitem_date_coerced s)
    with coerced_timestamps [of parse s] ok show ?thesis by simp
  qed
qed

section \<open>The breakdown by platform\<close>

lemma map_of_insert_row:
  "map_of (insert_row k v gs) k' =
     (if k' = k then Some ((case map_of gs k of None \<Rightarrow> [] | Some vs \<Rightarrow> vs) @ [v])
      else map_of gs k')"
  by (induction gs) auto

lemma map_of_group_fold:
  assumes "\<not> isnull k"
  shows "map_of (fold (\<lambda>r groups. if isnull (fst r) then groups
                        else insert_row (fst r) (snd r) groups) rs gs) k
         = (case map_of gs k of
              None \<Rightarrow> (if map snd (filter (\<lambda>r. fst r = k) rs) = [] then None
                        else Some (map snd (filter (\<lambda>r. fst r = k) rs)))
            | Some vs \<Rightarrow> Some (vs @ map snd (filter (\<lambda>r. fst r = k) rs)))"
proof (induction rs arbitrary: gs)
  case Nil
  then show ?case by (simp split: option.splits)
next
  case (Cons r rs)
  show ?case
  proof (cases "isnull (fst r)")
    case True
    with assms have "fst r \<noteq> k" by auto
    with True Cons.IH [of gs] show ?thesis by (simp split: option.splits)
  next
    case False
    then show ?thesis
      using Cons.IH [of "insert_row (fst r) (snd r) gs"]
      by (simp add: map_of_insert_row split: option.splits)
  qed
qed

lemma map_of_group_fold_null:
  assumes "isnull k"
  shows "map_of (fold (\<lambda>r groups. if isnull (fst r) then groups
                        else insert_row (fst r) (snd r) groups) rs gs) k = map_of gs k"
proof (induction rs arbitrary: gs)
  case Nil
  then show ?case by simp
next
  case (Cons r rs)
  show ?case
  proof (cases "isnull (fst r)")
    case True
    with Cons.IH [of gs] show ?thesis by simp
  next
    case False
    with assms have "k \<noteq> fst r" by auto
    with False Cons.IH [of "insert_row (fst r) (snd r) gs"] show ?thesis
      by (simp add: map_of_insert_row)
  qed
qed

lemma map_of_group_rows:
  "map_of (group_rows keys rows) k =
     (if isnull k \<or> rows_of keys rows k = [] then None else Some (rows_of keys rows k))"
proof (cases "isnull k")
  case True
  then show ?thesis by (simp add: group_rows_def map_of_group_fold_null)
next
  case False
  then show ?thesis by (simp add: group_rows_def map_of_group_fold rows_of_def)
qed

lemma map_of_agg:
  "map_of (map (\<lambda>g. (fst g, agg (snd g))) groups) k = map_option agg (map_of groups k)"
  by (induction groups) auto

lemma rows_of_zip:
  assumes "length keys = length es" and "length es = length hs"
  shows "map fst (rows_of keys (zip es hs) k) = rows_of keys es k"
    and "map snd (rows_of keys (zip es hs) k) = rows_of keys hs k"
  using assms
  by (induction keys es hs rule: list_induct3) (simp_all add: rows_of_def)

lemma rows_of_empty:
  assumes "length keys = length rows"
  shows "rows_of keys rows k = [] \<longleftrightarrow> k \<notin> set keys"
  using assms by (induction keys rows rule: list_induct2) (auto simp: rows_of_def)

lemma numeric_column_InrD:
  assumes "numeric_column data key = Inr s"
  shows "getitem data key = [s] \<and> list_all is_numeric s"
proof (cases "getitem data key")
  case Nil
  with assms show ?thesis by (simp add: numeric_column_def)
next
  case (Cons v rest)
  with assms have "rest = []"
    by (cases rest) (simp_all add: numeric_column_def)
  with Cons assms show ?thesis
    by (auto simp: numeric_column_def split: if_splits)
qed


text \<open>
  C7: for a Record Set with a \<^verbatim>\<open>platform\<close> column and numeric \<^verbatim>\<open>earnings\<close> and \<^verbatim>\<open>hours\<close>,
  the breakdown has an entry exactly for the labels that occur, and the entry of a label
  holds the sum and the mean of the earnings and of the hours over the rows of that
  label. In particular, for the platforms A, A, B with earnings 10, 20, 5 (whatever the
  dates and the hours), A has the earnings sum 30 and mean 15, and B the sum 5 and mean 5.
\<close>

theorem platform_breakdown:
  assumes "rectangular data" and "getitem data ''platform'' = [keys]"
    and "numeric_column data ''earnings'' = Inr es"
    and "numeric_column data ''hours'' = Inr hs"
  shows "(\<exists>stats. platform_stats data = Inr stats \<and>
            (\<forall>k. map_of stats k =
               (if k \<in> set keys \<and> \<not> isnull k
                then Some \<lparr>earnings_sum = group_sum (rows_of keys es k),
                           earnings_mean = group_mean (rows_of keys es k),
                           hours_sum = group_sum (rows_of keys hs k),
                           hours_mean = group_mean (rows_of keys hs k)\<rparr>
                else None))) \<and>
         (\<exists>stats. platform_stats
              [(''date'', [CTimestamp d1, CTimestamp d2, CTimestamp d3]),
               (''platform'', [CStr ''A'', CStr ''A'', CStr ''B'']),
               (''hours'', [CInt h1, CInt h2, CInt h3]),
               (''earnings'', [CInt 10, CInt 20, CInt 5])] = Inr stats \<and>
            map_option earnings_sum (map_of stats (CStr ''A'')) = Some 30 \<and>
            map_option earnings_mean (map_of stats (CStr ''A'')) = Some (Some 15) \<and>
            map_option earnings_sum (map_of stats (CStr ''B'')) = Some 5 \<and>
            map_option earnings_mean (map_of stats (CStr ''B'')) = Some (Some 5))"
proof (rule conjI)
  from numeric_column_InrD [OF assms(3)] numeric_column_InrD [OF assms(4)]
  have cols: "getitem data ''earnings'' = [es]" "getitem data ''hours'' = [hs]"
    by simp_all
  have len: "length keys = length es" "length es = length hs"
    using rectangular_length [OF assms(1,2) cols(1)] rectangular_length [OF assms(1) cols]
    by simp_all
  let ?stats = "map (\<lambda>g. (fst g, agg (snd g))) (group_rows keys (zip es hs))"
  have run: "platform_stats data = Inr ?stats"
    using assms(2,3,4) by (simp add: platform_stats_def)
  have each: "map_of ?stats k =
      (if k \<in> set keys \<and> \<not> isnull k
       then Some \<lparr>earnings_sum = group_sum (rows_of keys es k),
                  earnings_mean = group_mean (rows_of keys es k),
                  hours_sum = group_sum (rows_of keys hs k),
                  hours_mean = group_mean (rows_of keys hs k)\<rparr>
       else None)" for k
  proof -
    have "length keys = length (zip es hs)" using len by simp
    from rows_of_empty [OF this, of k] show ?thesis
      unfolding map_of_agg map_of_group_rows
      by (simp add: agg_def rows_of_zip [OF len])
  qed
  show "\<exists>stats. platform_stats data = Inr stats \<and>
            (\<forall>k. map_of stats k =
               (if k \<in> set keys \<and> \<not> isnull k
                then Some \<lparr>earnings_sum = group_sum (rows_of keys es k),
                           earnings_mean = group_mean (rows_of keys es k),
                           hours_sum = group_sum (rows_of keys hs k),
                           hours_mean = group_mean (rows_of keys hs k)\<rparr>
                else None))"
    using run each by blast
next
  show "\<exists>stats. platform_stats
              [(''date'', [CTimestamp d1, CTimestamp d2, CTimestamp d3]),
               (''platform'', [CStr ''A'', CStr ''A'', CStr ''B'']),
               (''hours'', [CInt h1, CInt h2, CInt h3]),
               (''earnings'', [CInt 10, CInt 20, CInt 5])] = Inr stats \<and>
            map_option earnings_sum (map_of stats (CStr ''A'')) = Some 30 \<and>
            map_option earnings_mean (map_of stats (CStr ''A'')) = Some (Some 15) \<and>
            map_option earnings_sum (map_of stats (CStr ''B'')) = Some 5 \<and>
            map_option earnings_mean (map_of stats (CStr ''B'')) = Some (Some 5)"
    by (simp add: platform_stats_def getitem_def numeric_column_def group_rows_def agg_def
        group_sum_def group_mean_def)
qed

theorem platform_breakdown_witness:
  "rectangular [(''platform'', [CStr ''A'', CStr ''A'', CStr ''B'']),
                (''hours'', [CInt 1, CInt 2, CInt 3]),
                (''earnings'', [CInt 10, CInt 20, CInt 5])] \<and>
   getitem [(''platform'', [CStr ''A'', CStr ''A'', CStr ''B'']),
            (''hours'', [CInt 1, CInt 2, CInt 3]),
            (''earnings'', [CInt 10, CInt 20, CInt 5])] ''platform''
     = [[CStr ''A'', CStr ''A'', CStr ''B'']] \<and>
   numeric_column [(''platform'', [CStr ''A'', CStr ''A'', CStr ''B'']),
            (''hours'', [CInt 1, CInt 2, CInt 3]),
            (''earnings'', [CInt 10, CInt 20, CInt 5])] ''earnings''
     = Inr [CInt 10, CInt 20, CInt 5] \<and>
   numeric_column [(''platform'', [CStr ''A'', CStr ''A'', CStr ''B'']),
            (''hours'', [CInt 1, CInt 2, CInt 3]),
            (''earnings'', [CInt 10, CInt 20, CInt 5])] ''hours''
     = Inr [CInt 1, CInt 2, CInt 3] \<and>
   (\<exists>stats. platform_stats [(''platform'', [CStr ''A'', CStr ''A'', CStr ''B'']),
            (''hours'', [CInt 1, CInt 2, CInt 3]),
            (''earnings'', [CInt 10, CInt 20, CInt 5])] = Inr stats \<and>
      map_of stats (CStr ''A'')
        = Some \<lparr>earnings_sum = 30, earnings_mean = Some 15, hours_sum = 3,
                 hours_mean = Some (3 / 2)\<rparr> \<and>
      map_of stats (CStr ''C'') = None)"
proof -
  let ?keys = "[CStr ''A'', CStr ''A'', CStr ''B'']"
  let ?es = "[CInt 10, CInt 20, CInt 5]"
  let ?hs = "[CInt 1, CInt 2, CInt 3]"
  let ?d = "[(''platform'', ?keys), (''hours'', ?hs), (''earnings'', ?es)]"
  have r: "rectangular ?d" by code_simp
  have p: "getitem ?d ''platform'' = [?keys]" by code_simp
  have e: "numeric_column ?d ''earnings'' = Inr ?es" by code_simp
  have h: "numeric_column ?d ''hours'' = Inr ?hs" by code_simp
  have a: "(if CStr ''A'' \<in> set ?keys \<and> \<not> isnull (CStr ''A'')
            then Some \<lparr>earnings_sum = group_sum (rows_of ?keys ?es (CStr ''A'')),
                       earnings_mean = group_mean (rows_of ?keys ?es (CStr ''A'')),
                       hours_sum = group_sum (rows_of ?keys ?hs (CStr ''A'')),
                       hours_mean = group_mean (rows_of ?keys ?hs (CStr ''A''))\<rparr>
            else None)
           = Some \<lparr>earnings_sum = 30, earnings_mean = Some 15, hours_sum = 3,
                    hours_mean = Some (3 / 2)\<rparr>"
    by code_simp
  have c: "(if CStr ''C'' \<in> set ?keys \<and> \<not> isnull (CStr ''C'')
            then Some \<lparr>earnings_sum = group_sum (rows_of ?keys ?es (CStr ''C'')),
                       earnings_mean = group_mean (rows_of ?keys ?es (CStr ''C'')),
                       hours_sum = group_sum (rows_of ?keys ?hs (CStr ''C'')),
                       hours_mean = group_mean (rows_of ?keys ?hs (CStr ''C''))\<rparr>
            else None) = None"
    by code_simp
  from platform_breakdown [OF r p e h, THEN conjunct1] obtain stats where
    s: "platform_stats ?d = Inr stats"
    and each: "\<And>k. map_of stats k =
       (if k \<in> set ?keys \<and> \<not> isnull k
        then Some \<lparr>earnings_sum = group_sum (rows_of ?keys ?es k),
                   earnings_mean = group_mean (rows_of ?keys ?es k),
                   hours_sum = group_sum (rows_of ?keys ?hs k),
                   hours_mean = group_mean (rows_of ?keys ?hs k)\<rparr>
        else None)"
    by blast
  have sa: "map_of stats (CStr ''A'') = Some \<lparr>earnings_sum = 30, earnings_mean = Some 15,
      hours_sum = 3, hours_mean = Some (3 / 2)\<rparr>"
    by (rule trans [OF each a])
  have sc: "map_of stats (CStr ''C'') = None"
    by (rule trans [OF each c])
  from s sa sc have "\<exists>stats. platform_stats ?d = Inr stats \<and>
      map_of stats (CStr ''A'')
        = Some \<lparr>earnings_sum = 30, earnings_mean = Some 15, hours_sum = 3,
                 hours_mean = Some (3 / 2)\<rparr> \<and>
      map_of stats (CStr ''C'') = None"
    by blast
  with r p e h show ?thesis by (intro conjI)
qed

section \<open>Failures of the remote call\<close>

text \<open>
  The two methods of \<^verbatim>\<open>GigAI\<close> do degrade every failure to a text that starts with the
  marker: they return, and when the remote call raises, what they return starts with
  \<^verbatim>\<open>Error\<close>.
\<close>

lemma gigai_methods_degrade:
  assumes "generate_text E p = Inl e" and "report_prompt E a = Inr p"
    and "question_prompt E a = p"
  shows "startswith (generate_judge_ready_recommendations E a) ''Error''"
    and "startswith (answer_question E a) ''Error''"
  using assms
  by (simp_all add: generate_judge_ready_recommendations_def answer_question_def startswith_def)

text \<open>
  C1 does not hold of \<^verbatim>\<open>main\<close>: the handlers call \<^verbatim>\<open>predict_schedule\<close> and
  \<^verbatim>\<open>ask_question\<close>, names that \<^verbatim>\<open>GigAI\<close> does not define, so each interaction raises
  AttributeError before any remote call is made, whatever the table, the question and
  the remote service are.
\<close>

theorem interaction_handlers_raise:
  "get_personalized_advice E data = Inl (AttributeError ''GigAI'' ''predict_schedule'') \<and>
   chat_input E messages prompt
     = (messages @ [(''user'', prompt)], Inl (AttributeError ''GigAI'' ''ask_question''))"
  by (simp add: get_personalized_advice_def chat_input_def gigai_method_def)

lemma tokenize_plain:
  "list_all plain_char g \<Longrightarrow>
   tokenize In_field f row (g @ rest) = tokenize In_field (f @ g) row rest"
  by (induction g arbitrary: f) (simp_all add: plain_char_def)

lemma tokenize_field:
  assumes "plain_field g"
  shows "tokenize Start_field [] row (g @ rest) = tokenize In_field g row rest"
proof -
  from assms obtain c cs where g: "g = c # cs" "plain_char c" "list_all plain_char cs"
    by (cases g) (auto simp: plain_field_def)
  from g(2) have "tokenize Start_field [] row (g @ rest) = tokenize In_field [c] row (cs @ rest)"
    by (simp add: g(1) plain_char_def)
  also have "\<dots> = tokenize In_field g row rest"
    using tokenize_plain [OF g(3)] by (simp add: g(1))
  finally show ?thesis .
qed

lemma tokenize_first_field:
  assumes "plain_field g"
  shows "tokenize Start_record [] [] (g @ rest) = tokenize In_field g [] rest"
proof -
  from assms obtain c cs where g: "g = c # cs" "plain_char c" "list_all plain_char cs"
    by (cases g) (auto simp: plain_field_def)
  from g(2) have "tokenize Start_record [] [] (g @ rest) = tokenize In_field [c] [] (cs @ rest)"
    by (simp add: g(1) plain_char_def)
  also have "\<dots> = tokenize In_field g [] rest"
    using tokenize_plain [OF g(3)] by (simp add: g(1))
  finally show ?thesis .
qed

lemma tokenize_fields:
  "list_all plain_field fs \<Longrightarrow>
   tokenize In_field f row (concat (map (\<lambda>g. CHR '','' # g) fs) @ CHR 0x0A # rest)
     = emit (row @ f # fs) (tokenize Start_record [] [] rest)"
proof (induction fs arbitrary: f row)
  case Nil
  show ?case by simp
next
  case (Cons g fs)
  then have g: "plain_field g" and fs: "list_all plain_field fs" by simp_all
  have "tokenize In_field f row (concat (map (\<lambda>g. CHR '','' # g) (g # fs)) @ CHR 0x0A # rest)
      = tokenize Start_field [] (row @ [f]) (g @ (concat (map (\<lambda>g. CHR '','' # g) fs) @ CHR 0x0A # rest))"
    by simp
  also have "\<dots> = tokenize In_field g (row @ [f]) (concat (map (\<lambda>g. CHR '','' # g) fs) @ CHR 0x0A # rest)"
    by (rule tokenize_field [OF g])
  also have "\<dots> = emit ((row @ [f]) @ g # fs) (tokenize Start_record [] [] rest)"
    by (rule Cons.IH [OF fs])
  finally show ?case by simp
qed

lemma join_with_comma:
  "join_with '','' (f # fs) = f @ concat (map (\<lambda>g. CHR '','' # g) fs)"
  by (induction fs arbitrary: f) simp_all

lemma plain_unquoted: "plain_field f \<Longrightarrow> quote_field f = f"
  by (auto simp: plain_field_def quote_field_def needs_quote_def list_ex_iff list_all_iff plain_char_def)

lemma write_plain_record:
  assumes "list_all plain_field (f # fs)"
  shows "write_record (f # fs) = f @ concat (map (\<lambda>g. CHR '','' # g) fs) @ [CHR 0x0A]"
proof -
  from assms have "map quote_field (f # fs) = f # fs"
    by (simp only: list_all_iff map_idI plain_unquoted)
  moreover from assms have "f # fs \<noteq> [[]]"
    by (auto simp: plain_field_def)
  ultimately show ?thesis
    unfolding write_record_def by (simp only: join_with_comma if_False append_assoc)
qed

lemma tokenize_record:
  assumes "r \<noteq> []" and "list_all plain_field r"
  shows "tokenize Start_record [] [] (write_record r @ rest)
           = emit r (tokenize Start_record [] [] rest)"
proof -
  from assms(1) obtain f fs where r: "r = f # fs" by (cases r) auto
  with assms(2) have f: "plain_field f" and fs: "list_all plain_field fs" by simp_all
  have "tokenize Start_record [] [] (write_record r @ rest)
      = tokenize Start_record [] [] (f @ (concat (map (\<lambda>g. CHR '','' # g) fs) @ CHR 0x0A # rest))"
    using write_plain_record [OF assms(2) [unfolded r]] by (simp add: r)
  also have "\<dots> = tokenize In_field f [] (concat (map (\<lambda>g. CHR '','' # g) fs) @ CHR 0x0A # rest)"
    by (rule tokenize_first_field [OF f])
  also have "\<dots> = emit ([] @ f # fs) (tokenize Start_record [] [] rest)"
    by (rule tokenize_fields [OF fs])
  finally show ?thesis by (simp add: r)
qed

lemma tokenize_write_csv:
  "list_all (\<lambda>r. r \<noteq> [] \<and> list_all plain_field r) records \<Longrightarrow>
   tokenize Start_record [] [] (write_csv records) = Inr records"
proof (induction records)
  case Nil
  show ?case by (simp add: write_csv_def)
next
  case (Cons r records)
  then have r: "r \<noteq> []" "list_all plain_field r"
    and rest: "tokenize Start_record [] [] (write_csv records) = Inr records"
    by simp_all
  have "write_csv (r # records) = write_record r @ write_csv records"
    by (simp add: write_csv_def)
  then show ?case
    using tokenize_record [OF r, of "write_csv records"] by (simp add: rest emit_def)
qed

lemma plain_text_char: "plain_char c \<Longrightarrow> text_char c"
  by (simp add: plain_char_def)

lemma separators_text_char: "text_char CHR '','' \<and> text_char CHR 0x0A"
  by (simp add: text_char_def)

lemma written_text_chars:
  assumes "list_all (\<lambda>r. r \<noteq> [] \<and> list_all plain_field r) records"
  shows "list_all text_char (write_csv records)"
proof -
  have "list_all text_char (write_record r)" if r: "r \<noteq> []" "list_all plain_field r" for r
  proof -
    from r(1) obtain f fs where r': "r = f # fs" by (cases r) auto
    have "list_all text_char g" if "g \<in> set r" for g
      using that r(2) plain_text_char by (auto simp: list_all_iff plain_field_def)
    then show ?thesis
      using write_plain_record [OF r(2) [unfolded r']] separators_text_char
      by (auto simp: r' list_all_iff)
  qed
  with assms show ?thesis
    by (auto simp: write_csv_def list_all_iff)
qed

lemma digit_plain:
  assumes "0 \<le> k" and "k < 10"
  shows "plain_char (digit_char k)"
proof -
  from assms have "k = 0 \<or> k = 1 \<or> k = 2 \<or> k = 3 \<or> k = 4 \<or> k = 5 \<or> k = 6 \<or> k = 7 \<or> k = 8 \<or> k = 9"
    by arith
  then show ?thesis
    by (auto simp: digit_char_def plain_char_def text_char_def)
qed

lemma plain_field_snoc: "plain_field f \<Longrightarrow> plain_char c \<Longrightarrow> plain_field (f @ [c])"
  by (simp add: plain_field_def)

lemma show_digits_plain: "0 \<le> n \<Longrightarrow> plain_field (show_digits n)"
proof (induction n rule: show_digits.induct)
  case (1 n)
  show ?case
  proof (cases "n < 10")
    case True
    with 1(2) have "plain_char (digit_char n)" by (rule digit_plain)
    with True show ?thesis
      by (subst show_digits.simps) (simp add: plain_field_def)
  next
    case False
    with 1 have "plain_field (show_digits (n div 10))" by simp
    moreover have "plain_char (digit_char (n mod 10))" by (rule digit_plain) simp_all
    ultimately have "plain_field (show_digits (n div 10) @ [digit_char (n mod 10)])"
      by (rule plain_field_snoc)
    with False show ?thesis
      by (subst show_digits.simps) simp
  qed
qed

lemma int_plain:
  assumes "0 \<le> i" and "i < 2 ^ 63"
  shows "plain_cell (CInt i)"
  using assms show_digits_plain [OF assms(1)] by (simp add: plain_cell_def show_int_def)

lemma tenths_plain:
  assumes "0 \<le> k" and "k < 10 ^ 15"
  shows "plain_cell (CFloat (of_int k / 10))"
proof -
  have fl: "\<lfloor>(of_int k / 10 :: rat) * 10\<rfloor> = k" by simp
  from assms(1) have "plain_field (show_digits (k div 10))"
    by (intro show_digits_plain) simp
  moreover have "plain_char CHR ''.''" by (simp add: plain_char_def text_char_def)
  ultimately have "plain_field (show_digits (k div 10) @ ''.'')"
    by (rule plain_field_snoc)
  moreover have "plain_char (digit_char (k mod 10))" by (rule digit_plain) simp_all
  ultimately have "plain_field ((show_digits (k div 10) @ ''.'') @ [digit_char (k mod 10)])"
    by (rule plain_field_snoc)
  then show ?thesis
    using assms unfolding plain_cell_def render.simps show_float_def fl Let_def
    by simp
qed

lemma labels_plain:
  "list_all plain_field [''Uber'', ''DoorDash'', ''Lyft'']"
  "list_all plain_field [''date'', ''earnings'', ''hours'', ''platform'', ''miles'']"
  by code_simp+

lemma sample_dates_read_back:
  "list_all reads_back (date_range (days_from_civil 2023 1 1) 90)"
  by code_simp

lemma plain_field_text: "plain_field f \<Longrightarrow> list_all text_char f"
  by (auto simp: plain_field_def list_all_iff plain_char_def)

lemma text_plain: "plain_field s \<Longrightarrow> plain_cell (CStr s)"
  by (simp add: plain_cell_def plain_field_text)

lemma plain_cell_render: "plain_cell v \<Longrightarrow> render v \<noteq> None \<and> plain_field (the (render v))"
  by (cases "render v") (simp_all add: plain_cell_def)

lemma read_csv_records:
  assumes "list_all text_char text"
    and "tokenize Start_record [] [] text = Inr (header # rows)"
    and "distinct header" and "[] \<notin> set header" and "rows \<noteq> []"
    and "\<forall>r\<in>set rows. length r = length header"
  shows "read_csv infer text =
           Some (Inr (map (\<lambda>j. (header ! j, infer (map (\<lambda>r. field_at r j) rows)))
                        [0..<length header]))"
proof -
  from assms(5) obtain first others where rows: "rows = first # others"
    by (cases rows) auto
  with assms(6) have "length first = length header"
    and "\<not> list_ex (\<lambda>r. length header < length r) others"
    by (auto simp: list_ex_iff)
  then show ?thesis
    unfolding read_csv_def assms(2) using assms(1,3,4)
    by (simp add: rows del: upt_Suc)
qed

lemma read_to_csv:
  assumes ne: "df \<noteq> []" and rect: "rectangular df" and some: "0 < len_df df"
    and names: "list_all plain_field (columns df)" and dist: "distinct (columns df)"
    and cells: "list_all (\<lambda>c. list_all plain_cell (snd c)) df"
    and print: "list_all (\<lambda>c. printable (snd c)) df"
  shows "\<exists>text. to_csv df = Some text \<and>
           read_csv infer text
             = Some (Inr (map (\<lambda>c. (fst c, infer (map (\<lambda>v. the (render v)) (snd c)))) df))"
proof -
  let ?n = "len_df df"
  let ?rows = "map (\<lambda>i. map (\<lambda>c. the (render (snd c ! i))) df) [0..<?n]"
  let ?text = "write_csv (columns df # ?rows)"
  have len: "length (snd c) = ?n" if "c \<in> set df" for c
    using rect that by (simp add: rectangular_def list_all_iff)
  have cell: "plain_cell (snd c ! i)" if "c \<in> set df" "i < ?n" for c i
  proof -
    from that len have "snd c ! i \<in> set (snd c)" by simp
    with cells that(1) show ?thesis by (auto simp: list_all_iff)
  qed
  have "list_all (list_all text_char) (columns df)"
    using names plain_field_text by (auto simp: list_all_iff)
  with ne rect print have written: "to_csv df = Some ?text"
    by (simp add: to_csv_def)
  have plain: "list_all (\<lambda>r. r \<noteq> [] \<and> list_all plain_field r) (columns df # ?rows)"
    using ne names cell plain_cell_render by (auto simp: list_all_iff columns_def)
  then have tokens: "tokenize Start_record [] [] ?text = Inr (columns df # ?rows)"
    by (rule tokenize_write_csv)
  from plain have chars: "list_all text_char ?text"
    by (rule written_text_chars)
  have no_empty: "[] \<notin> set (columns df)"
    using names by (auto simp: list_all_iff plain_field_def)
  have rows_ne: "?rows \<noteq> []"
    using some by simp
  have widths: "\<forall>r\<in>set ?rows. length r = length (columns df)"
    by (auto simp: columns_def)
  have col: "(columns df ! j, infer (map (\<lambda>r. field_at r j) ?rows))
      = (fst (df ! j), infer (map (\<lambda>v. the (render v)) (snd (df ! j))))" if j: "j < length df" for j
  proof -
    from j have lenj: "length (snd (df ! j)) = ?n"
      by (intro len) simp
    have "map (\<lambda>r. field_at r j) ?rows = map (\<lambda>i. the (render (snd (df ! j) ! i))) [0..<?n]"
      using j by (simp add: field_at_def comp_def)
    also have "\<dots> = map (\<lambda>v. the (render v)) (map (\<lambda>i. snd (df ! j) ! i) [0..<length (snd (df ! j))])"
      by (simp add: lenj comp_def)
    also have "\<dots> = map (\<lambda>v. the (render v)) (snd (df ! j))"
      by (simp only: map_nth)
    finally show ?thesis using j by (simp add: columns_def)
  qed
  have "map (\<lambda>j. (columns df ! j, infer (map (\<lambda>r. field_at r j) ?rows))) [0..<length (columns df)]
      = map (\<lambda>c. (fst c, infer (map (\<lambda>v. the (render v)) (snd c)))) df"
  proof (rule nth_equalityI)
    show "length (map (\<lambda>j. (columns df ! j, infer (map (\<lambda>r. field_at r j) ?rows)))
                    [0..<length (columns df)])
          = length (map (\<lambda>c. (fst c, infer (map (\<lambda>v. the (render v)) (snd c)))) df)"
      by (simp add: columns_def)
  next
    fix j
    assume "j < length (map (\<lambda>j. (columns df ! j, infer (map (\<lambda>r. field_at r j) ?rows)))
                          [0..<length (columns df)])"
    then have j: "j < length df" by (simp add: columns_def)
    then have "j < length (columns df) - 0" by (simp add: columns_def)
    from nth_map_upt [OF this, of "\<lambda>j. (columns df ! j, infer (map (\<lambda>r. field_at r j) ?rows))"]
    have "map (\<lambda>j. (columns df ! j, infer (map (\<lambda>r. field_at r j) ?rows)))
              [0..<length (columns df)] ! j
          = (columns df ! j, infer (map (\<lambda>r. field_at r j) ?rows))"
      by (simp only: add_0)
    also note col [OF j]
    also have "(fst (df ! j), infer (map (\<lambda>v. the (render v)) (snd (df ! j))))
          = map (\<lambda>c. (fst c, infer (map (\<lambda>v. the (render v)) (snd c)))) df ! j"
      using j by simp
    finally show "map (\<lambda>j. (columns df ! j, infer (map (\<lambda>r. field_at r j) ?rows)))
              [0..<length (columns df)] ! j
          = map (\<lambda>c. (fst c, infer (map (\<lambda>v. the (render v)) (snd c)))) df ! j" .
  qed
  with read_csv_records [OF chars tokens dist no_empty rows_ne widths, of infer]
  have "read_csv infer ?text
      = Some (Inr (map (\<lambda>c. (fst c, infer (map (\<lambda>v. the (render v)) (snd c)))) df))"
    by (simp only:)
  with written show ?thesis by blast
qed

lemma sample_date_bounds:
  "d \<in> set (date_range (days_from_civil 2023 1 1) 90) \<Longrightarrow> - 106751 \<le> d \<and> d \<le> 106751"
  by (auto simp: date_range_def epoch_day)

lemma sample_date_read_back:
  "d \<in> set (date_range (days_from_civil 2023 1 1) 90) \<Longrightarrow> reads_back d"
  using sample_dates_read_back by (simp only: list_all_iff)

lemma sample_date_plain:
  assumes "d \<in> set (date_range (days_from_civil 2023 1 1) 90)"
  shows "plain_cell (CTimestamp d)"
  using sample_date_bounds [OF assms] sample_date_read_back [OF assms]
  by (simp add: plain_cell_def show_date_def reads_back_def)

lemma sample_cells_plain:
  "list_all (\<lambda>c. list_all plain_cell (snd c)) (fst (load_sample_data g))"
proof -
  have date: "plain_cell (CTimestamp (days_from_civil 2023 1 1 + int i))" if "i < 90" for i
    using that by (intro sample_date_plain) (simp add: date_range_def)
  have earnings: "plain_cell (CInt (50 + int (g i mod 150)))" for i
    by (rule int_plain) simp_all
  have hours: "plain_cell (CInt (2 + int (g (i + 90) mod 6)))" for i
    by (rule int_plain) simp_all
  have platform: "plain_cell (CStr ([''Uber'', ''DoorDash'', ''Lyft''] ! (g (i + 180) mod 3)))" for i
  proof (rule text_plain)
    show "plain_field ([''Uber'', ''DoorDash'', ''Lyft''] ! (g (i + 180) mod 3))"
      using label_choice [of "g (i + 180)"] labels_plain(1) by auto
  qed
  have miles: "plain_cell (CFloat (round1 (5 + 45 * random_sample (g (i + 270)))))" for i
  proof -
    from miles_tenths [of "g (i + 270)"] obtain k
      where k: "round1 (5 + 45 * random_sample (g (i + 270))) = of_int k / 10" "50 \<le> k" "k \<le> 500"
      by blast
    from k(2,3) have "0 \<le> k" "k < 10 ^ 15" by simp_all
    then show ?thesis unfolding k(1) by (rule tenths_plain)
  qed
  show ?thesis
    unfolding load_sample_data_table
    using date earnings hours platform miles
    by (simp add: list_all_iff del: upt_Suc)
qed

lemma plain_cell_printed: "plain_cell v \<Longrightarrow> render v \<noteq> None"
  by (simp add: plain_cell_render)

lemma sample_printable:
  "list_all (\<lambda>c. printable (snd c)) (fst (load_sample_data g))"
proof -
  have "list_all (\<lambda>v. render v \<noteq> None) (snd c)" if "c \<in> set (fst (load_sample_data g))" for c
    using sample_cells_plain [of g] that plain_cell_printed by (auto simp: list_all_iff)
  moreover have "list_ex is_timestamp (snd c) \<longrightarrow> list_all (\<lambda>v. is_timestamp v \<or> v = CNaT) (snd c)"
    if "c \<in> set (fst (load_sample_data g))" for c
    using that unfolding load_sample_data_table
    by (auto simp: list_all_iff list_ex_iff simp del: upt_Suc)
  ultimately show ?thesis
    by (simp add: printable_def list_all_iff)
qed

lemma sample_labels_normal:
  "map normalize_col [''date'', ''earnings'', ''hours'', ''platform'', ''miles'']
     = [''date'', ''earnings'', ''hours'', ''platform'', ''miles'']"
  by code_simp

text \<open>
  C9: whatever the generator draws, \<^verbatim>\<open>to_csv\<close> writes the sample, \<^verbatim>\<open>read_csv\<close> reads that
  text back without error as a table with the same five labels, and the validator
  accepts it: all required columns are there, no message is shown, a Record Set is
  returned, and its dates are the dates that were written. This holds whenever pandas
  leaves a column of \<^verbatim>\<open>YYYY-MM-DD\<close> texts a column of texts and \<^verbatim>\<open>pd.to_datetime\<close> reads
  the 90 dates of the sample, written in that form, as those dates.
\<close>

theorem sample_round_trip:
  assumes "keeps_date_texts infer" and "reads_sample_dates parse"
  shows "\<exists>text table.
           to_csv (fst (load_sample_data g)) = Some text \<and>
           read_csv infer text = Some (Inr table) \<and>
           load_uploaded infer parse text = Some (Inr (validate_data parse table)) \<and>
           columns table = [''date'', ''earnings'', ''hours'', ''platform'', ''miles''] \<and>
           required - set (map normalize_col (columns table)) = {} \<and>
           st_error (validate_data parse table) = [] \<and>
           (\<exists>rs. returned (validate_data parse table) = Some rs \<and>
                 columns rs = [''date'', ''earnings'', ''hours'', ''platform'', ''miles''] \<and>
                 column rs ''date'' = column (fst (load_sample_data g)) ''date'')"
proof -
  let ?T = "fst (load_sample_data g)"
  let ?dates = "date_range (days_from_civil 2023 1 1) 90"
  let ?D = "map (\<lambda>d. CStr (date_text d)) ?dates"
  let ?txt = "\<lambda>v. the (render v)"
  define E where "E = infer (map ?txt (column ?T ''earnings''))"
  define H where "H = infer (map ?txt (column ?T ''hours''))"
  define P where "P = infer (map ?txt (column ?T ''platform''))"
  define M where "M = infer (map ?txt (column ?T ''miles''))"
  let ?table = "[(''date'', ?D), (''earnings'', E), (''hours'', H), (''platform'', P), (''miles'', M)]"
  have rb: "reads_back d" if "d \<in> set ?dates" for d
    using that by (rule sample_date_read_back)
  have rect: "rectangular ?T"
    by (simp add: load_sample_data_table rectangular_def len_df_def)
  have ne: "?T \<noteq> []"
    by (simp add: load_sample_data_table)
  have some: "0 < len_df ?T"
    by (simp add: load_sample_data_table len_df_def)
  have cols0: "columns ?T = [''date'', ''earnings'', ''hours'', ''platform'', ''miles'']"
    by (simp add: load_sample_data_table columns_def)
  have names: "list_all plain_field (columns ?T)"
    by (simp only: cols0 labels_plain)
  have dist: "distinct (columns ?T)"
    by (simp add: cols0)
  have "map ?txt (map CTimestamp ?dates) = map date_text ?dates"
    using sample_date_bounds by (simp add: show_date_def)
  then have texts: "map ?txt (column ?T ''date'') = map date_text ?dates"
    by (simp add: sample_columns date_range_def comp_def)
  have "list_all (\<lambda>t. parse_iso_date t \<noteq> None) (map date_text ?dates)"
    using rb by (auto simp: list_all_iff reads_back_def)
  with assms(1) have "infer (map date_text ?dates) = map CStr (map date_text ?dates)"
    unfolding keeps_date_texts_def by blast
  then have D: "infer (map ?txt (column ?T ''date'')) = ?D"
    by (simp add: texts comp_def)
  have "map (\<lambda>c. (fst c, infer (map ?txt (snd c)))) ?T
      = [(''date'', infer (map ?txt (column ?T ''date''))), (''earnings'', E), (''hours'', H),
         (''platform'', P), (''miles'', M)]"
    unfolding E_def H_def P_def M_def sample_columns
    by (simp add: load_sample_data_table)
  with read_to_csv [OF ne rect some names dist sample_cells_plain sample_printable, of infer]
  obtain written where written: "to_csv ?T = Some written"
    and read: "read_csv infer written = Some (Inr ?table)"
    by (auto simp only: D)
  have cols: "columns ?table = [''date'', ''earnings'', ''hours'', ''platform'', ''miles'']"
    by (simp add: columns_def)
  have norm: "map normalize_col (columns ?table)
      = [''date'', ''earnings'', ''hours'', ''platform'', ''miles'']"
    by (simp only: cols sample_labels_normal)
  have complete: "required - set (map normalize_col (columns ?table)) = {}"
    by (simp only: norm) (simp add: required_def)
  have same: "relabelled ?table = ?table"
    using sample_labels_normal by (simp add: relabelled_def)
  have date1: "getitem (relabelled ?table) ''date'' = [?D]"
    by (simp only: same) (simp add: getitem_def)
  have iso: "iso_text (CStr (date_text d)) = Some d" if "d \<in> set ?dates" for d
    using rb [OF that] by (simp add: reads_back_def iso_text_def)
  from assms(2) have agree: "\<forall>c\<in>set ?D. parse ?D c = iso_text c"
    unfolding reads_sample_dates_def sample_date_texts_def by (simp only: list_all_iff)
  have parsed: "parse ?D (CStr (date_text d)) = Some d" if "d \<in> set ?dates" for d
    using agree iso [OF that] that by auto
  then have good: "\<not> list_ex (\<lambda>c. parse ?D c = None) ?D"
    by (auto simp: list_ex_iff)
  have out: "validate_data parse ?table =
      \<lparr>returned = Some (date_coerced parse ?table),
       argument_after = date_coerced parse ?table, st_error = []\<rparr>"
    using validate_data_dates [OF complete date1, of parse] good
    by (simp only: same if_False)
  have "coerce parse ?D = map CTimestamp ?dates"
    using parsed by (simp add: coerce_def)
  then have "column (date_coerced parse ?table) ''date'' = map CTimestamp ?dates"
    by (simp add: column_def getitem_def date_coerced_def)
  also have "\<dots> = column ?T ''date''"
    by (simp add: sample_columns date_range_def comp_def)
  finally have dates: "column (date_coerced parse ?table) ''date'' = column ?T ''date''" .
  have cols2: "columns (date_coerced parse ?table)
      = [''date'', ''earnings'', ''hours'', ''platform'', ''miles'']"
    by (simp add: columns_def date_coerced_def)
  have up: "load_uploaded infer parse written = Some (Inr (validate_data parse ?table))"
    by (simp add: load_uploaded_def read)
  have err: "st_error (validate_data parse ?table) = []"
    by (simp add: out)
  have ret: "\<exists>rs. returned (validate_data parse ?table) = Some rs \<and>
      columns rs = [''date'', ''earnings'', ''hours'', ''platform'', ''miles''] \<and>
      column rs ''date'' = column ?T ''date''"
    using cols2 dates by (simp add: out)
  show ?thesis
    by (rule exI [of _ written], rule exI [of _ ?table]) (intro conjI written read up cols complete err ret)
qed

theorem sample_round_trip_witness:
  "\<exists>text table.
     to_csv (fst (load_sample_data (\<lambda>i. 0))) = Some text \<and>
     read_csv texts_only text = Some (Inr table) \<and>
     load_uploaded texts_only iso_within_bounds text
       = Some (Inr (validate_data iso_within_bounds table)) \<and>
     columns table = [''date'', ''earnings'', ''hours'', ''platform'', ''miles''] \<and>
     required - set (map normalize_col (columns table)) = {} \<and>
     st_error (validate_data iso_within_bounds table) = [] \<and>
     (\<exists>rs. returned (validate_data iso_within_bounds table) = Some rs \<and>
           columns rs = [''date'', ''earnings'', ''hours'', ''platform'', ''miles''] \<and>
           column rs ''date'' = column (fst (load_sample_data (\<lambda>i. 0))) ''date'')"
proof -
  have keeps: "keeps_date_texts texts_only"
    by (simp add: keeps_date_texts_def texts_only_def)
  have "iso_within_bounds sample_date_texts (CStr (date_text d)) = iso_text (CStr (date_text d))"
    if "d \<in> set (date_range (days_from_civil 2023 1 1) 90)" for d
    using sample_date_bounds [OF that] sample_date_read_back [OF that]
    by (simp add: iso_within_bounds_def iso_text_def reads_back_def)
  then have reads: "reads_sample_dates iso_within_bounds"
    unfolding reads_sample_dates_def sample_date_texts_def by (simp add: list_all_iff)
  show ?thesis
    by (rule sample_round_trip [OF keeps reads, of "\<lambda>i. 0"])
qed

end
